theory Spec2Isabelle
  imports Complex_Main "HOL-Library.Word" "HOL-Library.Product_Lexorder"
begin

unbundle bit_operations_syntax

section \<open>Errors\<close>

text \<open>
  Every \<^verbatim>\<open>throw new Error(...)\<close> and every rejected promise of the two storage
  providers is a value of this type. A function that can reject returns
  \<open>error + 'a\<close> with \<open>Inl\<close> for the rejection.
\<close>

datatype error =
    NotInitialized        \<comment> \<open>'Vector storage not initialized. Call initialize() first.'\<close>
  | LengthMismatch        \<comment> \<open>'Code chunks and metadata arrays must have the same length'\<close>
  | RequestFailed nat     \<comment> \<open>'Qdrant request failed: <status> ...' thrown by makeRequest\<close>
  | ProviderFailure       \<comment> \<open>the OpenAI call or the local pipeline threw\<close>
  | CircuitOpen           \<comment> \<open>the circuit breaker refused the call\<close>
  | UniqueViolation       \<comment> \<open>PostgreSQL: duplicate key value violates unique constraint\<close>
  | InvalidValue          \<comment> \<open>PostgreSQL: a parameter is not a value of the column's type\<close>
  | RangeError            \<comment> \<open>JavaScript: 'Invalid array length' thrown by new Array(n)\<close>
  | SyntaxError           \<comment> \<open>JavaScript: thrown by JSON.parse on a text that is not JSON\<close>

section \<open>QdrantVectorStorage: embedding generation\<close>

type_synonym vector = "real list"

text \<open>
  A JavaScript \<^verbatim>\<open>Map<string, number[]>\<close> iterates in insertion order, so the cache is
  an association list, oldest entry first. \<^verbatim>\<open>set\<close> on a present key replaces the value in
  place, on an absent key appends; \<^verbatim>\<open>delete\<close> removes the entry of a key.
\<close>

type_synonym embedding_cache = "(string \<times> vector) list"

fun map_set :: "('k \<times> 'v) list \<Rightarrow> 'k \<Rightarrow> 'v \<Rightarrow> ('k \<times> 'v) list" where
  "map_set [] k v = [(k, v)]"
| "map_set ((k', v') # m) k v =
     (if k' = k then (k, v) # m else (k', v') # map_set m k v)"

definition map_delete :: "('k \<times> 'v) list \<Rightarrow> 'k \<Rightarrow> ('k \<times> 'v) list" where
  "map_delete m k = filter (\<lambda>kv. fst kv \<noteq> k) m"

text \<open>
  The instance state of \<^verbatim>\<open>QdrantVectorStorage\<close> that embedding generation reads and
  writes. \<open>vectorSize\<close> is a JavaScript number that nothing validates. The OpenAI client
  and the local pipeline are external: each is present or absent, and when present it is
  the function from a text to the outcome of calling it (\<open>Inl\<close> when the call throws).
  The circuit breaker (\<^verbatim>\<open>utils/circuit-breaker.js\<close>) is a parameter as well: it maps
  the outcome the wrapped call would have to the outcome of \<^verbatim>\<open>execute\<close>, so an open
  breaker is \<open>\<lambda>_. Inl CircuitOpen\<close> and a closed one is the identity.
  \<open>embedCalls\<close> is a ghost field: the texts for which a tier below the cache ran.
\<close>

record qdrant =
  vectorSize :: real
  initialized :: bool
  openaiCircuitBreaker :: "error + vector \<Rightarrow> error + vector"
  openaiClient :: "(string \<Rightarrow> error + vector) option"
  localEmbeddingPipeline :: "(string \<Rightarrow> error + vector) option"
  embeddingCache :: embedding_cache
  embedCalls :: "string list"

definition EMBEDDING_CACHE_SIZE :: nat where
  "EMBEDDING_CACHE_SIZE = 1000"

definition EMBEDDING_DIMENSION :: nat where
  "EMBEDDING_DIMENSION = 1536"

definition LOCAL_EMBEDDING_DIMENSION :: nat where
  "LOCAL_EMBEDDING_DIMENSION = 384"

text \<open>
  The constructor: \<^verbatim>\<open>this.vectorSize = config.vectorSize || this.EMBEDDING_DIMENSION\<close>.
  An absent size and the size 0 are both falsy. The client and the pipeline are
  undefined until \<^verbatim>\<open>initialize\<close> runs.
\<close>

record VectorStorageConfig =
  cfg_vectorSize :: "real option"

text \<open>
  \<^verbatim>\<open>x || d\<close> on an optional number: \<open>d\<close> when \<open>x\<close> is undefined or 0 (both falsy),
  \<open>x\<close> otherwise.
\<close>

definition js_or :: "'a::zero option \<Rightarrow> 'a \<Rightarrow> 'a" where
  "js_or v d = (case v of None \<Rightarrow> d | Some x \<Rightarrow> if x = 0 then d else x)"

definition constructor :: "VectorStorageConfig \<Rightarrow> qdrant" where
  "constructor config =
     \<lparr> vectorSize = js_or (cfg_vectorSize config) (real EMBEDDING_DIMENSION),
       initialized = False,
       openaiCircuitBreaker = (\<lambda>r. r),
       openaiClient = None,
       localEmbeddingPipeline = None,
       embeddingCache = [],
       embedCalls = [] \<rparr>"

text \<open>
  \<^verbatim>\<open>simpleHash\<close>: \<^verbatim>\<open>hash = ((hash << 5) - hash) + char; hash = hash & hash\<close>. The
  bitwise operators work on 32-bit integers, so the loop is arithmetic on \<open>32 word\<close>,
  read as a signed number at the end.
\<close>

fun simpleHash_loop :: "32 word \<Rightarrow> string \<Rightarrow> 32 word" where
  "simpleHash_loop hash [] = hash"
| "simpleHash_loop hash (c # cs) =
     simpleHash_loop ((push_bit 5 hash - hash) + of_nat (of_char c)) cs"

definition simpleHash :: "string \<Rightarrow> int" where
  "simpleHash str = sint (simpleHash_loop 0 str)"

text \<open>
  \<^verbatim>\<open>generateFallbackEmbedding\<close>: an array of \<open>LOCAL_EMBEDDING_DIMENSION\<close> entries,
  entry \<open>i\<close> being \<^verbatim>\<open>Math.sin(hash * (i + 1)) * 0.1\<close>. Rounding of doubles is not
  modelled; the entries are real numbers.
\<close>

definition generateFallbackEmbedding :: "string \<Rightarrow> vector" where
  "generateFallbackEmbedding text =
     (let hash = simpleHash text
      in map (\<lambda>i. sin (real_of_int hash * real (i + 1)) * (1 / 10))
             [0 ..< LOCAL_EMBEDDING_DIMENSION])"

text \<open>
  \<^verbatim>\<open>generateLocalEmbedding\<close>: the pipeline when it is loaded, the hash-based
  embedding otherwise; the \<^verbatim>\<open>catch\<close> turns a throwing pipeline into the hash-based
  embedding too.
\<close>

definition generateLocalEmbedding :: "qdrant \<Rightarrow> string \<Rightarrow> error + vector" where
  "generateLocalEmbedding s text =
     (case (case localEmbeddingPipeline s of
              Some pipeline \<Rightarrow> pipeline text
            | None \<Rightarrow> Inr (generateFallbackEmbedding text)) of
        Inr output \<Rightarrow> Inr output
      | Inl err \<Rightarrow> Inr (generateFallbackEmbedding text))"

text \<open>
  Caching a result (lines 203-209): at capacity the first key of the map is deleted,
  but only when that key is truthy; the empty string is falsy, as is the
  \<^verbatim>\<open>undefined\<close> of an empty map.
\<close>

definition cache_result :: "embedding_cache \<Rightarrow> string \<Rightarrow> vector \<Rightarrow> embedding_cache" where
  "cache_result cache text embedding =
     (let cache' =
        (if length cache \<ge> EMBEDDING_CACHE_SIZE then
           (case cache of
              [] \<Rightarrow> cache
            | (firstKey, _) # _ \<Rightarrow>
                if firstKey \<noteq> [] then map_delete cache firstKey else cache)
         else cache)
      in map_set cache' text embedding)"

text \<open>
  \<^verbatim>\<open>new Array(n).fill(0)\<close>: an array of \<open>n\<close> zeros when \<open>n\<close> is an integer with
  \<open>0 \<le> n < 2^32\<close>; for any other number \<^verbatim>\<open>new Array(n)\<close> throws a RangeError.
\<close>

definition valid_array_length :: "real \<Rightarrow> bool" where
  "valid_array_length n = (0 \<le> n \<and> n < 2 ^ 32 \<and> n = of_int \<lfloor>n\<rfloor>)"

definition zero_array :: "real \<Rightarrow> error + vector" where
  "zero_array n = (if valid_array_length n then Inr (replicate (nat \<lfloor>n\<rfloor>) 0) else Inl RangeError)"

text \<open>
  \<^verbatim>\<open>generateEmbedding\<close>: a cache hit returns at once. Otherwise the \<^verbatim>\<open>try\<close>
  block calls OpenAI through the breaker when a client exists, and the local path only
  when no client exists; a result is cached and returned. The \<^verbatim>\<open>catch\<close> block
  returns \<^verbatim>\<open>new Array(this.vectorSize).fill(0)\<close> without caching it; when that
  expression throws, the call rejects.
\<close>

definition generateEmbedding :: "qdrant \<Rightarrow> string \<Rightarrow> (error + vector) \<times> qdrant" where
  "generateEmbedding s text =
     (case map_of (embeddingCache s) text of
        Some cached \<Rightarrow> (Inr cached, s)
      | None \<Rightarrow>
          (let s1 = s\<lparr>embedCalls := embedCalls s @ [text]\<rparr>;
               attempt =
                 (case openaiClient s of
                    Some client \<Rightarrow> openaiCircuitBreaker s (client text)
                  | None \<Rightarrow> generateLocalEmbedding s text)
           in case attempt of
                Inr embedding \<Rightarrow>
                  (Inr embedding,
                   s1\<lparr>embeddingCache := cache_result (embeddingCache s) text embedding\<rparr>)
              | Inl err \<Rightarrow> (zero_array (vectorSize s), s1)))"

section \<open>QdrantVectorStorage: storing and searching\<close>

record CodeMetadata =
  md_id :: string
  md_filePath :: string
  md_functionName :: "string option"
  md_className :: "string option"
  md_language :: string
  md_complexity :: real
  md_lineCount :: nat
  md_lastModified :: nat

text \<open>A point as sent to Qdrant: \<open>id\<close>, \<open>vector\<close> and the four payload fields.\<close>

record QdrantPoint =
  pt_id :: string
  pt_vector :: vector
  pt_content :: string
  pt_metadata :: CodeMetadata
  pt_created :: nat
  pt_updated :: nat

text \<open>
  The Qdrant server is external. For the upsert request
  \<^verbatim>\<open>PUT /collections/{name}/points\<close> it is a parameter: a function from the server's
  state and the request's points to the outcome (\<open>Some e\<close> when \<^verbatim>\<open>makeRequest\<close>
  throws, because the response is not ok) and the server's next state. The network
  record holds the server's state and the bodies of the upsert requests sent so far.
\<close>

type_synonym 'srv upsert_backend = "'srv \<Rightarrow> QdrantPoint list \<Rightarrow> error option \<times> 'srv"

record 'srv network =
  server :: 'srv
  sent :: "QdrantPoint list list"

definition makeRequest_put ::
  "'srv upsert_backend \<Rightarrow> 'srv network \<Rightarrow> QdrantPoint list \<Rightarrow> error option \<times> 'srv network" where
  "makeRequest_put backend net batch =
     (case backend (server net) batch of
        (outcome, srv') \<Rightarrow> (outcome, \<lparr> server = srv', sent = sent net @ [batch] \<rparr>))"

text \<open>
  The first loop of \<^verbatim>\<open>storeMultipleEmbeddings\<close> (lines 302-328): for the \<open>i\<close>-th code
  chunk and its metadata, generate the embedding and push the point; \<open>now i\<close> is the
  clock read in iteration \<open>i\<close>. The progress callback is not modelled.
\<close>

fun embed_all ::
  "(nat \<Rightarrow> nat) \<Rightarrow> nat \<Rightarrow> qdrant \<Rightarrow> (string \<times> CodeMetadata) list
    \<Rightarrow> (error + QdrantPoint list) \<times> qdrant" where
  "embed_all now i s [] = (Inr [], s)"
| "embed_all now i s ((code, metadata) # rest) =
     (case generateEmbedding s code of
        (Inl e, s') \<Rightarrow> (Inl e, s')
      | (Inr embedding, s') \<Rightarrow>
          (case embed_all now (Suc i) s' rest of
             (Inl e, s'') \<Rightarrow> (Inl e, s'')
           | (Inr points, s'') \<Rightarrow>
               (Inr (\<lparr> pt_id = md_id metadata, pt_vector = embedding, pt_content = code,
                       pt_metadata = metadata, pt_created = now i, pt_updated = now i \<rparr>
                     # points), s'')))"

definition batchSize :: nat where
  "batchSize = 100"

text \<open>
  The second loop (lines 330-337):
  \<^verbatim>\<open>for (let i = 0; i < points.length; i += batchSize)\<close> sends
  \<^verbatim>\<open>points.slice(i, i + batchSize)\<close> and awaits the request; a throwing request ends
  the loop and the function.
\<close>

function send_batches ::
  "'srv upsert_backend \<Rightarrow> 'srv network \<Rightarrow> QdrantPoint list \<Rightarrow> nat \<Rightarrow> error option \<times> 'srv network" where
  "send_batches backend net points i =
     (if i < length points then
        (case makeRequest_put backend net (take batchSize (drop i points)) of
           (Some e, net') \<Rightarrow> (Some e, net')
         | (None, net') \<Rightarrow> send_batches backend net' points (i + batchSize))
      else (None, net))"
  by pat_completeness auto

termination
  by (relation "measure (\<lambda>(backend, net, points, i). length points - i)")
    (auto simp: batchSize_def)

declare send_batches.simps [simp del]

text \<open>
  \<^verbatim>\<open>storeMultipleEmbeddings\<close>: the two guards, the embedding loop, the sending loop.
  It returns the ids on success; the instance and the network are returned as the call
  leaves them.
\<close>

definition storeMultipleEmbeddings ::
  "'srv upsert_backend \<Rightarrow> (nat \<Rightarrow> nat) \<Rightarrow> qdrant \<Rightarrow> 'srv network \<Rightarrow> string list \<Rightarrow> CodeMetadata list
    \<Rightarrow> (error + string list) \<times> qdrant \<times> 'srv network" where
  "storeMultipleEmbeddings backend now s net codeChunks metadataList =
     (if \<not> initialized s then (Inl NotInitialized, s, net)
      else if length codeChunks \<noteq> length metadataList then (Inl LengthMismatch, s, net)
      else
        (case embed_all now 0 s (zip codeChunks metadataList) of
           (Inl e, s') \<Rightarrow> (Inl e, s', net)
         | (Inr points, s') \<Rightarrow>
             (case send_batches backend net points 0 of
                (Some e, net') \<Rightarrow> (Inl e, s', net')
              | (None, net') \<Rightarrow> (Inr (map pt_id points), s', net'))))"

subsection \<open>Search\<close>

record SearchOptions =
  opt_limit :: "int option"
  opt_threshold :: "real option"

record SearchRequest =
  req_vector :: vector
  req_limit :: int
  req_score_threshold :: real
  req_with_payload :: bool

record QdrantSearchResult =
  res_id :: string
  res_score :: real
  res_content :: string
  res_metadata :: CodeMetadata

record SemanticSearchResult =
  ssr_id :: string
  ssr_code :: string
  ssr_metadata :: CodeMetadata
  ssr_similarity :: real

definition searchRequest :: "vector \<Rightarrow> SearchOptions \<Rightarrow> SearchRequest" where
  "searchRequest embedding options =
     \<lparr> req_vector = embedding,
       req_limit = js_or (opt_limit options) 10,
       req_score_threshold = js_or (opt_threshold options) (7 / 10),
       req_with_payload = True \<rparr>"

definition to_search_result :: "QdrantSearchResult \<Rightarrow> SemanticSearchResult" where
  "to_search_result result =
     \<lparr> ssr_id = res_id result, ssr_code = res_content result,
       ssr_metadata = res_metadata result, ssr_similarity = res_score result \<rparr>"

text \<open>
  \<^verbatim>\<open>searchByEmbedding\<close>. The search endpoint is a parameter: the function from the
  request body to the outcome of \<^verbatim>\<open>makeRequest\<close>, \<open>Inr\<close> carrying the \<open>result\<close> array
  of the response. The call gives its outcome and the bodies of the search requests it
  sent: none when the instance is not initialized, one otherwise.
\<close>

definition searchByEmbedding ::
  "qdrant \<Rightarrow> (SearchRequest \<Rightarrow> error + QdrantSearchResult list) \<Rightarrow> vector \<Rightarrow> SearchOptions
    \<Rightarrow> (error + SemanticSearchResult list) \<times> SearchRequest list" where
  "searchByEmbedding s search_backend embedding options =
     (if \<not> initialized s then (Inl NotInitialized, [])
      else
        (case search_backend (searchRequest embedding options) of
           Inl e \<Rightarrow> (Inl e, [searchRequest embedding options])
         | Inr results \<Rightarrow>
             (Inr (map to_search_result results), [searchRequest embedding options])))"



section \<open>Vector store: instances and notions used by the claims\<close>

text \<open>The configuration that leaves \<open>vectorSize\<close> out.\<close>

definition default_config :: VectorStorageConfig where
  "default_config = \<lparr> cfg_vectorSize = None \<rparr>"

text \<open>
  An instance whose OpenAI client throws on every call while its local pipeline works
  (it answers \<open>[1]\<close>), configured for vectors of size 2.
\<close>

definition remote_down :: qdrant where
  "remote_down =
     (constructor \<lparr> cfg_vectorSize = Some 2 \<rparr>)
       \<lparr> openaiClient := Some (\<lambda>_. Inl ProviderFailure),
         localEmbeddingPipeline := Some (\<lambda>_. Inr [1]) \<rparr>"

text \<open>
  The same instance configured with the vector size \<open>-1\<close>, a number the constructor
  takes as it is.
\<close>

definition remote_down_negative :: qdrant where
  "remote_down_negative =
     (constructor \<lparr> cfg_vectorSize = Some (- 1) \<rparr>)
       \<lparr> openaiClient := Some (\<lambda>_. Inl ProviderFailure),
         localEmbeddingPipeline := Some (\<lambda>_. Inr [1]) \<rparr>"

text \<open>An instance with no OpenAI client whose local pipeline throws on every call.\<close>

definition local_down :: qdrant where
  "local_down =
     (constructor default_config) \<lparr> localEmbeddingPipeline := Some (\<lambda>_. Inl ProviderFailure) \<rparr>"

text \<open>
  The texts of \<open>i\<close> letters a, and the cache entry that generating the embedding of such
  a text leaves on an instance with neither client nor pipeline.
\<close>

definition a_text :: "nat \<Rightarrow> string" where
  "a_text i = replicate i (CHR ''a'')"

definition a_entry :: "nat \<Rightarrow> string \<times> vector" where
  "a_entry i = (a_text i, generateFallbackEmbedding (a_text i))"

text \<open>Calling \<^verbatim>\<open>generateEmbedding\<close> for each text of a list in turn.\<close>

fun generate_all :: "qdrant \<Rightarrow> string list \<Rightarrow> qdrant" where
  "generate_all s [] = s"
| "generate_all s (text # texts) = generate_all (snd (generateEmbedding s text)) texts"

text \<open>
  The instance after \<^verbatim>\<open>generateEmbedding\<close> was called on a fresh default instance
  for the 1000 texts of 0, 1, ..., 999 letters a, in this order: its cache holds 1000
  entries, and the oldest key is the empty string.
\<close>

definition full_cache :: embedding_cache where
  "full_cache = map a_entry [0 ..< 1000]"

definition full_instance :: qdrant where
  "full_instance =
     (constructor default_config)
       \<lparr> embeddingCache := full_cache, embedCalls := map a_text [0 ..< 1000] \<rparr>"

subsection \<open>Chunks and sequences of requests\<close>

text \<open>
  The chunks of a list, as the claim words them: the list cut into pieces of \<open>n\<close>
  elements, the last piece holding what remains.
\<close>

function chunks :: "nat \<Rightarrow> 'a list \<Rightarrow> 'a list list" where
  "chunks n xs = (if n = 0 \<or> xs = [] then [] else take n xs # chunks n (drop n xs))"
  by pat_completeness auto

termination
  by (relation "measure (\<lambda>(n, xs). length xs)") auto

declare chunks.simps [simp del]

text \<open>
  \<open>run_ok backend srv cs\<close>: the server's state after the backend accepted every request
  of \<open>cs\<close> in turn, \<open>None\<close> when it refused one.
\<close>

fun run_ok :: "'srv upsert_backend \<Rightarrow> 'srv \<Rightarrow> QdrantPoint list list \<Rightarrow> 'srv option" where
  "run_ok backend srv [] = Some srv"
| "run_ok backend srv (c # cs) =
     (case backend srv c of
        (None, srv') \<Rightarrow> run_ok backend srv' cs
      | (Some e, srv') \<Rightarrow> None)"

text \<open>Sending a list of chunks one after the other, stopping at the first refusal.\<close>

fun upsert_chunks ::
  "'srv upsert_backend \<Rightarrow> 'srv network \<Rightarrow> QdrantPoint list list \<Rightarrow> error option \<times> 'srv network" where
  "upsert_chunks backend net [] = (None, net)"
| "upsert_chunks backend net (c # cs) =
     (case makeRequest_put backend net c of
        (Some e, net') \<Rightarrow> (Some e, net')
      | (None, net') \<Rightarrow> upsert_chunks backend net' cs)"

subsection \<open>A reference server and concrete inputs\<close>

text \<open>
  A server that refuses a request holding a point whose vector has not the collection's
  size, and upserts the points by id otherwise.
\<close>

record qdrant_server =
  srv_size :: nat
  srv_points :: "(string \<times> QdrantPoint) list"

definition reference_upsert :: "qdrant_server upsert_backend" where
  "reference_upsert srv batch =
     (if list_all (\<lambda>p. length (pt_vector p) = srv_size srv) batch
      then (None, srv\<lparr>srv_points := fold (\<lambda>p m. map_set m (pt_id p) p) batch (srv_points srv)\<rparr>)
      else (Some (RequestFailed 400), srv))"

text \<open>
  An initialized instance for vectors of size 2 whose cache holds an embedding for the
  text \<open>ok\<close> and, for the text \<open>bad\<close>, an embedding of another size.
\<close>

definition ready :: qdrant where
  "ready =
     (constructor \<lparr> cfg_vectorSize = Some 2 \<rparr>)
       \<lparr> initialized := True,
         embeddingCache := [(''ok'', [1, 2]), (''bad'', [1])] \<rparr>"

text \<open>Metadata and a point with the id \<open>k\<close>; every clock reading is 0.\<close>

definition meta :: "string \<Rightarrow> CodeMetadata" where
  "meta k =
     \<lparr> md_id = k, md_filePath = ''f.ts'', md_functionName = None, md_className = None,
       md_language = ''ts'', md_complexity = 1, md_lineCount = 1, md_lastModified = 0 \<rparr>"

definition point :: "string \<Rightarrow> string \<Rightarrow> vector \<Rightarrow> QdrantPoint" where
  "point k code v =
     \<lparr> pt_id = k, pt_vector = v, pt_content = code, pt_metadata = meta k,
       pt_created = 0, pt_updated = 0 \<rparr>"

text \<open>A server with an empty collection of vector size 2, and no request sent yet.\<close>

definition empty_server :: "qdrant_server network" where
  "empty_server = \<lparr> server = \<lparr> srv_size = 2, srv_points = [] \<rparr>, sent = [] \<rparr>"


section \<open>PostgreSQLStorage\<close>

text \<open>
  A value of a JSONB column is a JSON value. The provider writes it as the text
  \<^verbatim>\<open>JSON.stringify\<close> gives, which the server stores as the value; on reading, the
  driver hands the provider the value already parsed, \<open>JNull\<close> for SQL NULL and for the
  JSON null. A timestamp is a reading of the database clock.
\<close>

datatype json =
    JNull
  | JBool bool
  | JNum real
  | JStr string
  | JArr "json list"
  | JObj "(string \<times> json) list"

type_synonym timestamp = nat

text \<open>
  The four record kinds. The first record of each pair is the argument type of
  \<^verbatim>\<open>insert*\<close> (the interface type without the fields the store maintains); its
  extension is a row of the table, which is also what \<^verbatim>\<open>get*\<close> returns.
\<close>

record SemanticConcept =
  sc_id :: string
  sc_conceptName :: string
  sc_conceptType :: string
  sc_confidenceScore :: real
  sc_relationships :: json
  sc_evolutionHistory :: json
  sc_filePath :: string
  sc_lineRange :: json

record semantic_concepts_row = SemanticConcept +
  sc_created_at :: timestamp
  sc_updated_at :: timestamp

record DeveloperPattern =
  dp_patternId :: string
  dp_patternType :: string
  dp_patternContent :: json
  dp_frequency :: int
  dp_contexts :: json
  dp_examples :: json
  dp_confidence :: real

record developer_patterns_row = DeveloperPattern +
  dp_created_at :: timestamp
  dp_last_seen :: timestamp

record FileIntelligence =
  fi_filePath :: string
  fi_fileHash :: string
  fi_semanticConcepts :: json
  fi_patternsUsed :: json
  fi_complexityMetrics :: json
  fi_dependencies :: json
  fi_lastAnalyzed :: timestamp

record file_intelligence_row = FileIntelligence +
  fi_created_at :: timestamp

datatype validation_status = pending | validated | rejected

record AIInsight =
  ai_insightId :: string
  ai_insightType :: string
  ai_insightContent :: json
  ai_confidenceScore :: real
  ai_sourceAgent :: string
  ai_validationStatus :: validation_status
  ai_impactPrediction :: json

record ai_insights_row = AIInsight +
  ai_created_at :: timestamp

record tables =
  semantic_concepts :: "semantic_concepts_row list"
  developer_patterns :: "developer_patterns_row list"
  file_intelligence :: "file_intelligence_row list"
  ai_insights :: "ai_insights_row list"

text \<open>
  The database server is external; its part in the claims is the meaning of the SQL the
  provider sends. A \<open>TEXT\<close> value cannot hold the character with code 0: PostgreSQL
  refuses a statement with such a parameter.
\<close>

definition pg_text :: "string \<Rightarrow> bool" where
  "pg_text s = (CHR 0x00 \<notin> set s)"

text \<open>
  \<^verbatim>\<open>INSERT INTO semantic_concepts (...) VALUES (...) ON CONFLICT (id) DO UPDATE SET ...\<close>
  as \<^verbatim>\<open>insertSemanticConcept\<close> writes it: a row with the key is updated in the listed
  columns, \<open>updated_at\<close> becoming the current time; otherwise a row is added whose two
  timestamps default to the current time.
\<close>

definition insert_semantic_concepts ::
  "timestamp \<Rightarrow> SemanticConcept \<Rightarrow> semantic_concepts_row list \<Rightarrow> error + semantic_concepts_row list" where
  "insert_semantic_concepts now c rows =
     (if \<not> (pg_text (sc_id c) \<and> pg_text (sc_conceptName c) \<and> pg_text (sc_conceptType c)
            \<and> pg_text (sc_filePath c))
      then Inl InvalidValue
      else if list_ex (\<lambda>r. sc_id r = sc_id c) rows
      then Inr (map (\<lambda>r. if sc_id r = sc_id c
                           then r\<lparr> sc_conceptName := sc_conceptName c,
                                  sc_conceptType := sc_conceptType c,
                                  sc_confidenceScore := sc_confidenceScore c,
                                  sc_relationships := sc_relationships c,
                                  sc_evolutionHistory := sc_evolutionHistory c,
                                  sc_filePath := sc_filePath c,
                                  sc_lineRange := sc_lineRange c,
                                  sc_updated_at := now \<rparr>
                           else r) rows)
      else Inr (rows @
             [\<lparr> sc_id = sc_id c, sc_conceptName = sc_conceptName c,
                sc_conceptType = sc_conceptType c, sc_confidenceScore = sc_confidenceScore c,
                sc_relationships = sc_relationships c,
                sc_evolutionHistory = sc_evolutionHistory c, sc_filePath = sc_filePath c,
                sc_lineRange = sc_lineRange c, sc_created_at = now, sc_updated_at = now \<rparr>]))"

text \<open>The statement of \<^verbatim>\<open>insertDeveloperPattern\<close>: on conflict \<open>last_seen\<close> is refreshed.\<close>

definition insert_developer_patterns ::
  "timestamp \<Rightarrow> DeveloperPattern \<Rightarrow> developer_patterns_row list \<Rightarrow> error + developer_patterns_row list" where
  "insert_developer_patterns now p rows =
     (if \<not> (pg_text (dp_patternId p) \<and> pg_text (dp_patternType p))
      then Inl InvalidValue
      else if list_ex (\<lambda>r. dp_patternId r = dp_patternId p) rows
      then Inr (map (\<lambda>r. if dp_patternId r = dp_patternId p
                           then r\<lparr> dp_patternType := dp_patternType p,
                                  dp_patternContent := dp_patternContent p,
                                  dp_frequency := dp_frequency p,
                                  dp_contexts := dp_contexts p,
                                  dp_examples := dp_examples p,
                                  dp_confidence := dp_confidence p,
                                  dp_last_seen := now \<rparr>
                           else r) rows)
      else Inr (rows @
             [\<lparr> dp_patternId = dp_patternId p, dp_patternType = dp_patternType p,
                dp_patternContent = dp_patternContent p, dp_frequency = dp_frequency p,
                dp_contexts = dp_contexts p, dp_examples = dp_examples p,
                dp_confidence = dp_confidence p, dp_created_at = now, dp_last_seen = now \<rparr>]))"

text \<open>
  The statement of \<^verbatim>\<open>insertFileIntelligence\<close>: on conflict every column but the key
  and \<open>created_at\<close> takes the new value; \<open>last_analyzed\<close> is a parameter.
\<close>

definition insert_file_intelligence ::
  "timestamp \<Rightarrow> FileIntelligence \<Rightarrow> file_intelligence_row list \<Rightarrow> error + file_intelligence_row list" where
  "insert_file_intelligence now f rows =
     (if \<not> (pg_text (fi_filePath f) \<and> pg_text (fi_fileHash f))
      then Inl InvalidValue
      else if list_ex (\<lambda>r. fi_filePath r = fi_filePath f) rows
      then Inr (map (\<lambda>r. if fi_filePath r = fi_filePath f
                           then r\<lparr> fi_fileHash := fi_fileHash f,
                                  fi_semanticConcepts := fi_semanticConcepts f,
                                  fi_patternsUsed := fi_patternsUsed f,
                                  fi_complexityMetrics := fi_complexityMetrics f,
                                  fi_dependencies := fi_dependencies f,
                                  fi_lastAnalyzed := fi_lastAnalyzed f \<rparr>
                           else r) rows)
      else Inr (rows @
             [\<lparr> fi_filePath = fi_filePath f, fi_fileHash = fi_fileHash f,
                fi_semanticConcepts = fi_semanticConcepts f,
                fi_patternsUsed = fi_patternsUsed f,
                fi_complexityMetrics = fi_complexityMetrics f,
                fi_dependencies = fi_dependencies f, fi_lastAnalyzed = fi_lastAnalyzed f,
                fi_created_at = now \<rparr>]))"

text \<open>
  The statement of \<^verbatim>\<open>insertAIInsight\<close> is a plain \<^verbatim>\<open>INSERT\<close> with no
  \<^verbatim>\<open>ON CONFLICT\<close> clause: a row with the key \<open>insight_id\<close>, the table's primary key,
  makes it fail.
\<close>

definition insert_ai_insights ::
  "timestamp \<Rightarrow> AIInsight \<Rightarrow> ai_insights_row list \<Rightarrow> error + ai_insights_row list" where
  "insert_ai_insights now a rows =
     (if \<not> (pg_text (ai_insightId a) \<and> pg_text (ai_insightType a) \<and> pg_text (ai_sourceAgent a))
      then Inl InvalidValue
      else if list_ex (\<lambda>r. ai_insightId r = ai_insightId a) rows
      then Inl UniqueViolation
      else Inr (rows @
             [\<lparr> ai_insightId = ai_insightId a, ai_insightType = ai_insightType a,
                ai_insightContent = ai_insightContent a,
                ai_confidenceScore = ai_confidenceScore a, ai_sourceAgent = ai_sourceAgent a,
                ai_validationStatus = ai_validationStatus a,
                ai_impactPrediction = ai_impactPrediction a, ai_created_at = now \<rparr>]))"

text \<open>
  The server as the provider sees it: the committed tables, and the transaction open on
  the client that the provider checked out of the pool, if any, as the effect it will
  have on the tables when it commits. \<^verbatim>\<open>pool.query\<close> runs its statement on another
  connection of the pool (the checked-out client is not idle) in autocommit mode, so its
  effect is committed at once and is no part of the client's transaction. The pool is
  taken to have a connection to spare.
\<close>

record postgres =
  committed :: tables
  client_transaction :: "(tables \<Rightarrow> tables) option"

datatype statement =
    InsertSemanticConcept SemanticConcept
  | InsertDeveloperPattern DeveloperPattern
  | InsertFileIntelligence FileIntelligence
  | InsertAIInsight AIInsight

fun execute :: "timestamp \<Rightarrow> statement \<Rightarrow> tables \<Rightarrow> error + tables" where
  "execute now (InsertSemanticConcept c) t =
     (case insert_semantic_concepts now c (semantic_concepts t) of
        Inl e \<Rightarrow> Inl e | Inr rows \<Rightarrow> Inr (t\<lparr>semantic_concepts := rows\<rparr>))"
| "execute now (InsertDeveloperPattern p) t =
     (case insert_developer_patterns now p (developer_patterns t) of
        Inl e \<Rightarrow> Inl e | Inr rows \<Rightarrow> Inr (t\<lparr>developer_patterns := rows\<rparr>))"
| "execute now (InsertFileIntelligence f) t =
     (case insert_file_intelligence now f (file_intelligence t) of
        Inl e \<Rightarrow> Inl e | Inr rows \<Rightarrow> Inr (t\<lparr>file_intelligence := rows\<rparr>))"
| "execute now (InsertAIInsight a) t =
     (case insert_ai_insights now a (ai_insights t) of
        Inl e \<Rightarrow> Inl e | Inr rows \<Rightarrow> Inr (t\<lparr>ai_insights := rows\<rparr>))"

definition pool_query :: "timestamp \<Rightarrow> statement \<Rightarrow> postgres \<Rightarrow> error option \<times> postgres" where
  "pool_query now stmt db =
     (case execute now stmt (committed db) of
        Inl e \<Rightarrow> (Some e, db)
      | Inr t \<Rightarrow> (None, db\<lparr>committed := t\<rparr>))"

text \<open>The three commands the provider sends on the checked-out client.\<close>

datatype client_command = BEGIN | COMMIT | ROLLBACK

fun client_query :: "client_command \<Rightarrow> postgres \<Rightarrow> postgres" where
  "client_query BEGIN db = db\<lparr>client_transaction := Some (\<lambda>t. t)\<rparr>"
| "client_query COMMIT db =
     (case client_transaction db of
        None \<Rightarrow> db
      | Some effect \<Rightarrow> db\<lparr>committed := effect (committed db), client_transaction := None\<rparr>)"
| "client_query ROLLBACK db = db\<lparr>client_transaction := None\<rparr>"

definition insertSemanticConcept :: "timestamp \<Rightarrow> SemanticConcept \<Rightarrow> postgres \<Rightarrow> error option \<times> postgres" where
  "insertSemanticConcept now concept db = pool_query now (InsertSemanticConcept concept) db"

definition insertDeveloperPattern :: "timestamp \<Rightarrow> DeveloperPattern \<Rightarrow> postgres \<Rightarrow> error option \<times> postgres" where
  "insertDeveloperPattern now pattern db = pool_query now (InsertDeveloperPattern pattern) db"

definition insertFileIntelligence :: "timestamp \<Rightarrow> FileIntelligence \<Rightarrow> postgres \<Rightarrow> error option \<times> postgres" where
  "insertFileIntelligence now fileIntel db = pool_query now (InsertFileIntelligence fileIntel) db"

definition insertAIInsight :: "timestamp \<Rightarrow> AIInsight \<Rightarrow> postgres \<Rightarrow> error option \<times> postgres" where
  "insertAIInsight now insight db = pool_query now (InsertAIInsight insight) db"

text \<open>
  The loop of a batch: \<^verbatim>\<open>for (const concept of concepts) await this.insertSemanticConcept(concept)\<close>;
  \<open>now i\<close> is the database clock at the \<open>i\<close>-th insert. A failing insert ends the loop.
\<close>

fun insert_each ::
  "(timestamp \<Rightarrow> 'a \<Rightarrow> postgres \<Rightarrow> error option \<times> postgres) \<Rightarrow> (nat \<Rightarrow> timestamp) \<Rightarrow> nat
    \<Rightarrow> 'a list \<Rightarrow> postgres \<Rightarrow> error option \<times> postgres" where
  "insert_each insert_one now i [] db = (None, db)"
| "insert_each insert_one now i (x # xs) db =
     (case insert_one (now i) x db of
        (Some e, db') \<Rightarrow> (Some e, db')
      | (None, db') \<Rightarrow> insert_each insert_one now (Suc i) xs db')"

text \<open>
  \<^verbatim>\<open>insertSemanticConceptsBatch\<close> and \<^verbatim>\<open>insertDeveloperPatternsBatch\<close>:
  \<^verbatim>\<open>BEGIN\<close> on the client, the inserts through \<^verbatim>\<open>this.insert*\<close> (that is, through
  the pool), then \<^verbatim>\<open>COMMIT\<close> on the client, or \<^verbatim>\<open>ROLLBACK\<close> on the client and the
  error rethrown.
\<close>

definition insertSemanticConceptsBatch ::
  "(nat \<Rightarrow> timestamp) \<Rightarrow> SemanticConcept list \<Rightarrow> postgres \<Rightarrow> error option \<times> postgres" where
  "insertSemanticConceptsBatch now concepts db =
     (if concepts = [] then (None, db)
      else
        (case insert_each insertSemanticConcept now 0 concepts (client_query BEGIN db) of
           (None, db') \<Rightarrow> (None, client_query COMMIT db')
         | (Some e, db') \<Rightarrow> (Some e, client_query ROLLBACK db')))"

definition insertDeveloperPatternsBatch ::
  "(nat \<Rightarrow> timestamp) \<Rightarrow> DeveloperPattern list \<Rightarrow> postgres \<Rightarrow> error option \<times> postgres" where
  "insertDeveloperPatternsBatch now patterns db =
     (if patterns = [] then (None, db)
      else
        (case insert_each insertDeveloperPattern now 0 patterns (client_query BEGIN db) of
           (None, db') \<Rightarrow> (None, client_query COMMIT db')
         | (Some e, db') \<Rightarrow> (Some e, client_query ROLLBACK db')))"

text \<open>
  \<^verbatim>\<open>SELECT ... ORDER BY key DESC\<close>: the rows in descending order of the key. The
  optional filter of \<^verbatim>\<open>get*\<close> applies when the argument is truthy, that is, given and
  not the empty string.
\<close>

definition order_by_desc :: "('a \<Rightarrow> 'k::linorder) \<Rightarrow> 'a list \<Rightarrow> 'a list" where
  "order_by_desc key rows = rev (sort_key key rows)"

definition where_eq :: "('a \<Rightarrow> string) \<Rightarrow> string option \<Rightarrow> 'a list \<Rightarrow> 'a list" where
  "where_eq column arg rows =
     (case arg of
        None \<Rightarrow> rows
      | Some v \<Rightarrow> if v \<noteq> [] then filter (\<lambda>r. column r = v) rows else rows)"

text \<open>
  \<^verbatim>\<open>JSON.parse(row.column || default)\<close> on a value the driver already parsed. When
  the value is falsy (null, false, 0, the empty string) the default text is parsed, which
  gives the default value. Otherwise \<^verbatim>\<open>JSON.parse\<close> converts its argument to a string
  first: an object becomes the text \<^verbatim>\<open>[object Object]\<close> and the empty array the empty
  text, neither of which is JSON, so the call throws a SyntaxError; a number and
  \<open>true\<close> become their own JSON text and are read back. For a string, and for a
  non-empty array (which becomes its elements' texts joined by commas), the outcome
  depends on the characters of the text; it is the parameter \<open>parse_text\<close>.
\<close>

fun js_truthy :: "json \<Rightarrow> bool" where
  "js_truthy JNull = False"
| "js_truthy (JBool b) = b"
| "js_truthy (JNum n) = (n \<noteq> 0)"
| "js_truthy (JStr s) = (s \<noteq> [])"
| "js_truthy (JArr xs) = True"
| "js_truthy (JObj members) = True"

fun JSON_parse :: "(json \<Rightarrow> error + json) \<Rightarrow> json \<Rightarrow> error + json" where
  "JSON_parse parse_text (JObj members) = Inl SyntaxError"
| "JSON_parse parse_text (JArr []) = Inl SyntaxError"
| "JSON_parse parse_text (JNum n) = Inr (JNum n)"
| "JSON_parse parse_text (JBool b) = Inr (JBool b)"
| "JSON_parse parse_text JNull = Inr JNull"
| "JSON_parse parse_text v = parse_text v"

definition parse_column :: "(json \<Rightarrow> error + json) \<Rightarrow> json \<Rightarrow> json \<Rightarrow> error + json" where
  "parse_column parse_text v default_value =
     (if js_truthy v then JSON_parse parse_text v else Inr default_value)"

text \<open>
  \<^verbatim>\<open>result.rows.map(row => ...)\<close> with a callback that may throw: the first row on
  which it throws makes the whole call reject.
\<close>

fun map_rows :: "('a \<Rightarrow> error + 'b) \<Rightarrow> 'a list \<Rightarrow> error + 'b list" where
  "map_rows f [] = Inr []"
| "map_rows f (row # rows) =
     (case f row of
        Inl e \<Rightarrow> Inl e
      | Inr x \<Rightarrow> (case map_rows f rows of Inl e \<Rightarrow> Inl e | Inr xs \<Rightarrow> Inr (x # xs)))"

text \<open>
  The callbacks of the three list operations. The fields of the object literal are
  evaluated in the order written, so the first column that fails to parse decides.
\<close>

definition row_to_SemanticConcept ::
  "(json \<Rightarrow> error + json) \<Rightarrow> semantic_concepts_row \<Rightarrow> error + semantic_concepts_row" where
  "row_to_SemanticConcept parse_text row =
     (case parse_column parse_text (sc_relationships row) (JObj []) of
        Inl e \<Rightarrow> Inl e
      | Inr relationships \<Rightarrow>
          (case parse_column parse_text (sc_evolutionHistory row) (JObj []) of
             Inl e \<Rightarrow> Inl e
           | Inr evolutionHistory \<Rightarrow>
               (case parse_column parse_text (sc_lineRange row)
                       (JObj [(''start'', JNum 0), (''end'', JNum 0)]) of
                  Inl e \<Rightarrow> Inl e
                | Inr lineRange \<Rightarrow>
                    Inr (row\<lparr> sc_relationships := relationships,
                             sc_evolutionHistory := evolutionHistory,
                             sc_lineRange := lineRange \<rparr>))))"

definition row_to_DeveloperPattern ::
  "(json \<Rightarrow> error + json) \<Rightarrow> developer_patterns_row \<Rightarrow> error + developer_patterns_row" where
  "row_to_DeveloperPattern parse_text row =
     (case parse_column parse_text (dp_patternContent row) (JObj []) of
        Inl e \<Rightarrow> Inl e
      | Inr patternContent \<Rightarrow>
          (case parse_column parse_text (dp_contexts row) (JArr []) of
             Inl e \<Rightarrow> Inl e
           | Inr contexts \<Rightarrow>
               (case parse_column parse_text (dp_examples row) (JArr []) of
                  Inl e \<Rightarrow> Inl e
                | Inr examples \<Rightarrow>
                    Inr (row\<lparr> dp_patternContent := patternContent,
                             dp_contexts := contexts,
                             dp_examples := examples \<rparr>))))"

definition row_to_AIInsight ::
  "(json \<Rightarrow> error + json) \<Rightarrow> ai_insights_row \<Rightarrow> error + ai_insights_row" where
  "row_to_AIInsight parse_text row =
     (case parse_column parse_text (ai_insightContent row) (JObj []) of
        Inl e \<Rightarrow> Inl e
      | Inr insightContent \<Rightarrow>
          (case parse_column parse_text (ai_impactPrediction row) (JObj []) of
             Inl e \<Rightarrow> Inl e
           | Inr impactPrediction \<Rightarrow>
               Inr (row\<lparr> ai_insightContent := insightContent,
                        ai_impactPrediction := impactPrediction \<rparr>)))"

definition getSemanticConcepts ::
  "(json \<Rightarrow> error + json) \<Rightarrow> string option \<Rightarrow> postgres \<Rightarrow> error + semantic_concepts_row list" where
  "getSemanticConcepts parse_text filePath db =
     map_rows (row_to_SemanticConcept parse_text)
       (order_by_desc sc_created_at
          (where_eq sc_filePath filePath (semantic_concepts (committed db))))"

definition getDeveloperPatterns ::
  "(json \<Rightarrow> error + json) \<Rightarrow> string option \<Rightarrow> postgres \<Rightarrow> error + developer_patterns_row list" where
  "getDeveloperPatterns parse_text patternType db =
     map_rows (row_to_DeveloperPattern parse_text)
       (order_by_desc (\<lambda>row. (dp_frequency row, dp_last_seen row))
          (where_eq dp_patternType patternType (developer_patterns (committed db))))"

definition getAIInsights ::
  "(json \<Rightarrow> error + json) \<Rightarrow> string option \<Rightarrow> postgres \<Rightarrow> error + ai_insights_row list" where
  "getAIInsights parse_text insightType db =
     map_rows (row_to_AIInsight parse_text)
       (order_by_desc ai_created_at
          (where_eq ai_insightType insightType (ai_insights (committed db))))"

subsection \<open>Concrete inputs\<close>

definition empty_db :: postgres where
  "empty_db =
     \<lparr> committed = \<lparr> semantic_concepts = [], developer_patterns = [], file_intelligence = [],
                     ai_insights = [] \<rparr>,
       client_transaction = None \<rparr>"

definition concept :: "string \<Rightarrow> SemanticConcept" where
  "concept k =
     \<lparr> sc_id = k, sc_conceptName = ''Foo'', sc_conceptType = ''class'',
       sc_confidenceScore = 1 / 2, sc_relationships = JObj [], sc_evolutionHistory = JObj [],
       sc_filePath = ''/a.ts'', sc_lineRange = JObj [(''start'', JNum 1), (''end'', JNum 2)] \<rparr>"

definition pattern :: "string \<Rightarrow> int \<Rightarrow> DeveloperPattern" where
  "pattern k n =
     \<lparr> dp_patternId = k, dp_patternType = ''naming'', dp_patternContent = JObj [],
       dp_frequency = n, dp_contexts = JArr [], dp_examples = JArr [], dp_confidence = 1 / 2 \<rparr>"

definition insight :: "string \<Rightarrow> real \<Rightarrow> AIInsight" where
  "insight k score =
     \<lparr> ai_insightId = k, ai_insightType = ''bug'', ai_insightContent = JObj [],
       ai_confidenceScore = score, ai_sourceAgent = ''agent'', ai_validationStatus = pending,
       ai_impactPrediction = JObj [] \<rparr>"








section \<open>Properties of embedding generation\<close>

lemma length_generateFallbackEmbedding:
  "length (generateFallbackEmbedding text) = LOCAL_EMBEDDING_DIMENSION"
  by (simp add: generateFallbackEmbedding_def Let_def)

lemma generateLocalEmbedding_total:
  "\<exists>v. generateLocalEmbedding s text = Inr v"
  by (simp add: generateLocalEmbedding_def split: option.split sum.split)

lemma generateEmbedding_total:
  assumes "valid_array_length (vectorSize s) \<or> openaiClient s = None"
  shows "\<exists>v s'. generateEmbedding s text = (Inr v, s')"
proof (cases "openaiClient s")
  case None
  obtain v where "generateLocalEmbedding s text = Inr v"
    using generateLocalEmbedding_total by blast
  with None show ?thesis
    by (simp add: generateEmbedding_def Let_def split: option.split)
next
  case (Some client)
  with assms have "valid_array_length (vectorSize s)" by simp
  with Some show ?thesis
    by (simp add: generateEmbedding_def zero_array_def Let_def split: option.split sum.split)
qed

lemma generateEmbedding_vectorSize:
  "generateEmbedding s text = (r, s') \<Longrightarrow>
     vectorSize s' = vectorSize s \<and> openaiClient s' = openaiClient s"
  by (auto simp: generateEmbedding_def Let_def split: option.splits sum.splits)

lemma length_map_set_absent:
  "map_of m k = None \<Longrightarrow> length (map_set m k v) = Suc (length m)"
  by (induction m) (auto split: if_splits)

lemma length_map_set_le: "length (map_set m k v) \<le> Suc (length m)"
  by (induction m) auto

lemma length_map_delete_first:
  "distinct (map fst ((k, v) # m)) \<Longrightarrow> map_delete ((k, v) # m) k = m"
  by (induction m) (auto simp: map_delete_def)

text \<open>
  Where the oldest key is not the empty string, caching keeps the cache within its
  capacity: the eviction the code attempts.
\<close>

lemma cache_result_bounded:
  assumes "distinct (map fst cache)"
    and "length cache \<le> EMBEDDING_CACHE_SIZE"
    and "cache = [] \<or> fst (hd cache) \<noteq> []"
  shows "length (cache_result cache text embedding) \<le> EMBEDDING_CACHE_SIZE"
proof (cases "length cache \<ge> EMBEDDING_CACHE_SIZE")
  case False
  then have "cache_result cache text embedding = map_set cache text embedding"
    by (simp add: cache_result_def)
  moreover have "length (map_set cache text embedding) \<le> Suc (length cache)"
    by (rule length_map_set_le)
  ultimately show ?thesis using False by simp
next
  case True
  then have len: "length cache = EMBEDDING_CACHE_SIZE" using assms(2) by simp
  then obtain k v m where c: "cache = (k, v) # m"
    by (cases cache) (auto simp: EMBEDDING_CACHE_SIZE_def)
  with assms(3) have k: "k \<noteq> []" by simp
  have del: "map_delete cache k = m"
    using assms(1) c length_map_delete_first by metis
  have "cache_result cache text embedding = map_set m text embedding"
    using True k del by (simp add: cache_result_def c)
  moreover have "length (map_set m text embedding) \<le> Suc (length m)"
    by (rule length_map_set_le)
  ultimately show ?thesis using len c by simp
qed

lemma generate_all_append:
  "generate_all s (xs @ ys) = generate_all (generate_all s xs) ys"
  by (induction xs arbitrary: s) simp_all

lemma map_set_absent:
  "map_of m k = None \<Longrightarrow> map_set m k v = m @ [(k, v)]"
  by (induction m) (auto split: if_splits)

lemma a_text_miss: "map_of (map a_entry [0 ..< n]) (a_text n) = None"
proof -
  have "a_text n \<notin> fst ` set (map a_entry [0 ..< n])"
  proof
    assume "a_text n \<in> fst ` set (map a_entry [0 ..< n])"
    then obtain i where "i < n" "a_text n = a_text i"
      by (auto simp: a_entry_def)
    then have "length (a_text n) = length (a_text i)" by simp
    with \<open>i < n\<close> show False by (simp add: a_text_def)
  qed
  then show ?thesis by (simp add: map_of_eq_None_iff)
qed

lemma generate_a_texts:
  "n \<le> 1000 \<Longrightarrow>
   generate_all (constructor default_config) (map a_text [0 ..< n])
     = (constructor default_config)
         \<lparr> embeddingCache := map a_entry [0 ..< n], embedCalls := map a_text [0 ..< n] \<rparr>"
proof (induction n)
  case 0
  then show ?case by (simp add: constructor_def)
next
  case (Suc n)
  let ?s = "(constructor default_config)
      \<lparr> embeddingCache := map a_entry [0 ..< n], embedCalls := map a_text [0 ..< n] \<rparr>"
  have cache: "cache_result (map a_entry [0 ..< n]) (a_text n) (generateFallbackEmbedding (a_text n))
      = map a_entry [0 ..< n] @ [a_entry n]"
    using Suc.prems
    by (simp add: cache_result_def EMBEDDING_CACHE_SIZE_def map_set_absent a_text_miss a_entry_def)
  have step: "snd (generateEmbedding ?s (a_text n))
      = (constructor default_config)
          \<lparr> embeddingCache := map a_entry [0 ..< Suc n], embedCalls := map a_text [0 ..< Suc n] \<rparr>"
    by (simp add: generateEmbedding_def generateLocalEmbedding_def a_text_miss cache Let_def
        constructor_def)
  have "generate_all (constructor default_config) (map a_text [0 ..< Suc n])
      = generate_all ?s [a_text n]"
    using Suc by (simp add: generate_all_append)
  then show ?case using step by simp
qed

lemma full_instance_reached:
  "generate_all (constructor default_config) (map a_text [0 ..< 1000]) = full_instance"
  unfolding full_instance_def full_cache_def by (rule generate_a_texts) simp

lemma full_cache_oldest: "\<exists>rest. full_cache = ([], generateFallbackEmbedding []) # rest"
  unfolding full_cache_def by (subst upt_conv_Cons) (simp_all add: a_entry_def a_text_def)

lemma length_full_cache: "length full_cache = 1000"
  by (simp add: full_cache_def)

lemma b_not_a_text: "''b'' \<noteq> a_text i"
proof
  assume "''b'' = a_text i"
  then have "CHR ''b'' \<in> set (replicate i (CHR ''a''))"
    unfolding a_text_def by (metis list.set_intros(1))
  then show False by simp
qed

lemma full_cache_miss: "map_of full_cache ''b'' = None"
proof -
  have "''b'' \<notin> fst ` set full_cache"
  proof
    assume "''b'' \<in> fst ` set full_cache"
    then obtain i where "''b'' = a_text i"
      unfolding full_cache_def set_map image_image a_entry_def fst_conv by blast
    then show False using b_not_a_text by blast
  qed
  then show ?thesis by (simp add: map_of_eq_None_iff)
qed

section \<open>Claims on embedding generation\<close>

text \<open>
  C3. The claim: for every text, \<^verbatim>\<open>generateEmbedding\<close> returns a vector whose length
  is the configured \<open>vectorSize\<close>, also when the hash-based fallback tier produces it.
  The code: on an instance constructed with the default configuration (no OpenAI client,
  no local pipeline) the vector returned for the text \<open>x\<close> is the fallback embedding,
  of length \<open>LOCAL_EMBEDDING_DIMENSION = 384\<close>, while \<open>vectorSize\<close> is 1536.
\<close>

theorem generateEmbedding_fallback_length_mismatch:
  "fst (generateEmbedding (constructor default_config) ''x'') = Inr (generateFallbackEmbedding ''x'')
   \<and> length (generateFallbackEmbedding ''x'') = 384
   \<and> vectorSize (constructor default_config) = 1536"
  by (simp add: generateEmbedding_def generateLocalEmbedding_def constructor_def
      default_config_def js_or_def EMBEDDING_DIMENSION_def
      length_generateFallbackEmbedding LOCAL_EMBEDDING_DIMENSION_def Let_def)

text \<open>
  C4, as stated: the call never rejects, and an error of the remote provider is absorbed
  by falling through to the next tier, the local model. Both fail. On \<open>remote_down\<close>
  the OpenAI call throws, the local pipeline would answer \<open>[1]\<close>, and
  \<^verbatim>\<open>generateEmbedding\<close> resolves with the zero vector of size 2, since the
  \<^verbatim>\<open>catch\<close> block is the only handler of the remote call. On \<open>remote_down_negative\<close>,
  configured with the vector size \<open>-1\<close>, the \<^verbatim>\<open>catch\<close> block itself throws a
  RangeError and the call rejects.
\<close>

theorem generateEmbedding_remote_error_skips_local:
  "fst (generateEmbedding remote_down ''x'') = Inr [0, 0]
   \<and> generateLocalEmbedding remote_down ''x'' = Inr [1]
   \<and> fst (generateEmbedding remote_down_negative ''x'') = Inl RangeError"
  by (simp add: generateEmbedding_def generateLocalEmbedding_def remote_down_def
      remote_down_negative_def constructor_def js_or_def Let_def numeral_2_eq_2
      zero_array_def valid_array_length_def)

text \<open>
  C4, amended. When the configured vector size is a valid array length (an integer from
  0 to \<open>2^32 - 1\<close>) or no OpenAI client exists, \<^verbatim>\<open>generateEmbedding\<close> never rejects:
  for every text it resolves with a vector. On a cache miss, an error of the remote call
  (a thrown provider error or the breaker's refusal) is absorbed by the zero vector of
  the configured size, without trying the local model; with no OpenAI client, an error of
  the local pipeline is absorbed by the hash-based fallback embedding.
\<close>

theorem generateEmbedding_never_rejects:
  "(valid_array_length (vectorSize s) \<or> openaiClient s = None
      \<longrightarrow> (\<exists>v. fst (generateEmbedding s text) = Inr v))
   \<and> (valid_array_length (vectorSize s)
        \<and> map_of (embeddingCache s) text = None \<and> openaiClient s = Some client
        \<and> openaiCircuitBreaker s (client text) = Inl err
      \<longrightarrow> fst (generateEmbedding s text) = Inr (replicate (nat \<lfloor>vectorSize s\<rfloor>) 0))
   \<and> (map_of (embeddingCache s) text = None \<and> openaiClient s = None
        \<and> localEmbeddingPipeline s = Some pipeline \<and> pipeline text = Inl err
      \<longrightarrow> fst (generateEmbedding s text) = Inr (generateFallbackEmbedding text))"
proof (intro conjI impI)
  assume "valid_array_length (vectorSize s) \<or> openaiClient s = None"
  then obtain v s' where "generateEmbedding s text = (Inr v, s')"
    using generateEmbedding_total by blast
  then show "\<exists>v. fst (generateEmbedding s text) = Inr v" by simp
next
  assume "valid_array_length (vectorSize s)
        \<and> map_of (embeddingCache s) text = None \<and> openaiClient s = Some client
        \<and> openaiCircuitBreaker s (client text) = Inl err"
  then show "fst (generateEmbedding s text) = Inr (replicate (nat \<lfloor>vectorSize s\<rfloor>) 0)"
    by (simp add: generateEmbedding_def zero_array_def Let_def)
next
  assume "map_of (embeddingCache s) text = None \<and> openaiClient s = None
        \<and> localEmbeddingPipeline s = Some pipeline \<and> pipeline text = Inl err"
  then show "fst (generateEmbedding s text) = Inr (generateFallbackEmbedding text)"
    by (simp add: generateEmbedding_def generateLocalEmbedding_def Let_def)
qed

text \<open>
  C4, witness: \<open>remote_down\<close> (vector size 2, the remote call throws) and
  \<open>local_down\<close> (no client, the pipeline throws).
\<close>

theorem generateEmbedding_never_rejects_witness:
  "(\<exists>v. fst (generateEmbedding remote_down ''x'') = Inr v)
   \<and> fst (generateEmbedding remote_down ''x'') = Inr (replicate 2 0)
   \<and> fst (generateEmbedding local_down ''x'') = Inr (generateFallbackEmbedding ''x'')"
proof -
  have v: "vectorSize remote_down = 2"
    by (simp add: remote_down_def constructor_def js_or_def)
  have ok: "valid_array_length (vectorSize remote_down)"
    by (simp add: v valid_array_length_def)
  have r: "valid_array_length (vectorSize remote_down)
      \<and> map_of (embeddingCache remote_down) ''x'' = None
      \<and> openaiClient remote_down = Some (\<lambda>_. Inl ProviderFailure)
      \<and> openaiCircuitBreaker remote_down ((\<lambda>_. Inl ProviderFailure) ''x'') = Inl ProviderFailure"
    using ok by (simp add: remote_down_def constructor_def)
  have l: "map_of (embeddingCache local_down) ''x'' = None
      \<and> openaiClient local_down = None
      \<and> localEmbeddingPipeline local_down = Some (\<lambda>_. Inl ProviderFailure)
      \<and> (\<lambda>_. Inl ProviderFailure) ''x'' = Inl ProviderFailure"
    by (simp add: local_down_def constructor_def)
  have n: "nat \<lfloor>vectorSize remote_down\<rfloor> = 2" by (simp add: v)
  show ?thesis
    using generateEmbedding_never_rejects
        [of remote_down "''x''" "\<lambda>_. Inl ProviderFailure" ProviderFailure]
      generateEmbedding_never_rejects
        [of local_down "''x''" _ ProviderFailure "\<lambda>_. Inl ProviderFailure"]
      ok r l n
    by simp
qed

text \<open>
  C6. The claim: the cache never holds more than 1000 entries. The code: on
  \<open>full_instance\<close>, reached from a fresh instance by 1000 calls and holding 1000 entries
  with the empty string as the oldest key, generating the embedding of the new text \<open>b\<close>
  evicts nothing, because \<^verbatim>\<open>if (firstKey)\<close> is false for the empty string; the cache
  then holds 1001 entries, the empty string still the first of them.
\<close>

theorem embeddingCache_exceeds_capacity:
  "generate_all (constructor default_config) (map a_text [0 ..< 1000]) = full_instance
   \<and> length (embeddingCache full_instance) = 1000
   \<and> length (embeddingCache (snd (generateEmbedding full_instance ''b''))) = 1001
   \<and> fst (hd (embeddingCache (snd (generateEmbedding full_instance ''b'')))) = []"
proof -
  let ?v = "generateFallbackEmbedding ''b''"
  have gen: "embeddingCache (snd (generateEmbedding full_instance ''b''))
      = cache_result full_cache ''b'' ?v"
    by (simp add: generateEmbedding_def generateLocalEmbedding_def full_instance_def
        constructor_def full_cache_miss Let_def)
  obtain rest where c: "full_cache = ([], generateFallbackEmbedding []) # rest"
    using full_cache_oldest by blast
  have "cache_result full_cache ''b'' ?v = map_set full_cache ''b'' ?v"
    unfolding cache_result_def Let_def
    by (simp add: length_full_cache EMBEDDING_CACHE_SIZE_def) (simp add: c)
  moreover have "length (map_set full_cache ''b'' ?v) = 1001"
    using length_map_set_absent [OF full_cache_miss] by (simp add: length_full_cache)
  moreover have "fst (hd (map_set full_cache ''b'' ?v)) = []"
    by (simp add: c)
  moreover have "embeddingCache full_instance = full_cache"
    by (simp add: full_instance_def)
  ultimately show ?thesis
    using full_instance_reached by (simp add: gen length_full_cache)
qed

section \<open>Properties of storing\<close>

lemma concat_chunks: "0 < n \<Longrightarrow> concat (chunks n xs) = xs"
proof (induction n xs rule: chunks.induct)
  case (1 n xs)
  then show ?case by (subst chunks.simps) auto
qed

lemma length_chunk_le: "c \<in> set (chunks n xs) \<Longrightarrow> length c \<le> n \<and> c \<noteq> []"
proof (induction n xs rule: chunks.induct)
  case (1 n xs)
  from "1.prems" show ?case
    by (subst (asm) chunks.simps) (use "1.IH" in \<open>auto split: if_splits\<close>)
qed

lemma chunks_nth:
  "j < length (chunks n xs) \<Longrightarrow> chunks n xs ! j = take n (drop (j * n) xs)"
proof (induction n xs arbitrary: j rule: chunks.induct)
  case (1 n xs)
  show ?case
  proof (cases "n = 0 \<or> xs = []")
    case True
    with "1.prems" show ?thesis by (simp add: chunks.simps)
  next
    case False
    then have eq: "chunks n xs = take n xs # chunks n (drop n xs)"
      by (subst chunks.simps) simp
    show ?thesis
    proof (cases j)
      case 0
      then show ?thesis by (simp add: eq)
    next
      case (Suc k)
      with "1.prems" eq have "k < length (chunks n (drop n xs))" by simp
      with "1.IH" False have "chunks n (drop n xs) ! k = take n (drop (k * n) (drop n xs))"
        by blast
      then show ?thesis by (simp add: eq Suc add.commute)
    qed
  qed
qed

lemma send_batches_chunks:
  "send_batches backend net points i = upsert_chunks backend net (chunks batchSize (drop i points))"
proof (induction backend net points i rule: send_batches.induct)
  case (1 backend net points i)
  show ?case
  proof (cases "i < length points")
    case False
    then show ?thesis
      by (subst send_batches.simps) (simp add: chunks.simps)
  next
    case True
    then have ch: "chunks batchSize (drop i points)
        = take batchSize (drop i points) # chunks batchSize (drop (i + batchSize) points)"
      by (subst chunks.simps) (simp add: batchSize_def add.commute)
    show ?thesis
    proof (cases "makeRequest_put backend net (take batchSize (drop i points))")
      case (Pair outcome net')
      show ?thesis
      proof (cases outcome)
        case None
        have "send_batches backend net' points (i + batchSize)
            = upsert_chunks backend net' (chunks batchSize (drop (i + batchSize) points))"
          using "1.IH" True Pair None by simp
        with None Pair True show ?thesis
          by (subst send_batches.simps) (simp add: ch)
      next
        case (Some e)
        with Pair True show ?thesis
          by (subst send_batches.simps) (simp add: ch)
      qed
    qed
  qed
qed

lemma upsert_chunks_stops:
  assumes "run_ok backend (server net) pre = Some srv_k"
    and "backend srv_k bad = (Some e, srv_bad)"
  shows "upsert_chunks backend net (pre @ bad # post)
    = (Some e, \<lparr> server = srv_bad, sent = sent net @ pre @ [bad] \<rparr>)"
  using assms
proof (induction pre arbitrary: net)
  case Nil
  then show ?case by (simp add: makeRequest_put_def)
next
  case (Cons c cs)
  obtain outcome srv' where b: "backend (server net) c = (outcome, srv')"
    by (cases "backend (server net) c")
  with Cons.prems(1) have o: "outcome = None" and r: "run_ok backend srv' cs = Some srv_k"
    by (auto split: option.splits)
  let ?net' = "\<lparr> server = srv', sent = sent net @ [c] \<rparr>"
  have "upsert_chunks backend ?net' (cs @ bad # post)
      = (Some e, \<lparr> server = srv_bad, sent = sent ?net' @ cs @ [bad] \<rparr>)"
    using Cons.IH [of ?net'] r Cons.prems(2) by simp
  then show ?case using b o by (simp add: makeRequest_put_def)
qed

lemma upsert_chunks_all:
  assumes "run_ok backend (server net) cs = Some srv_n"
  shows "upsert_chunks backend net cs = (None, \<lparr> server = srv_n, sent = sent net @ cs \<rparr>)"
  using assms
proof (induction cs arbitrary: net)
  case Nil
  then show ?case by simp
next
  case (Cons c cs)
  obtain outcome srv' where b: "backend (server net) c = (outcome, srv')"
    by (cases "backend (server net) c")
  with Cons.prems have o: "outcome = None" and r: "run_ok backend srv' cs = Some srv_n"
    by (auto split: option.splits)
  let ?net' = "\<lparr> server = srv', sent = sent net @ [c] \<rparr>"
  have "upsert_chunks backend ?net' cs = (None, \<lparr> server = srv_n, sent = sent ?net' @ cs \<rparr>)"
    using Cons.IH [of ?net'] r by simp
  then show ?case using b o by (simp add: makeRequest_put_def)
qed

lemma embed_all_total:
  assumes "valid_array_length (vectorSize s) \<or> openaiClient s = None"
  shows "\<exists>points s'. embed_all now i s items = (Inr points, s') \<and> length points = length items"
  using assms
proof (induction items arbitrary: i s)
  case Nil
  then show ?case by simp
next
  case (Cons item items)
  obtain code metadata where it: "item = (code, metadata)" by (cases item)
  obtain v s1 where g: "generateEmbedding s code = (Inr v, s1)"
    using generateEmbedding_total [OF Cons.prems] by blast
  then have "valid_array_length (vectorSize s1) \<or> openaiClient s1 = None"
    using generateEmbedding_vectorSize Cons.prems by metis
  from Cons.IH [OF this, of "Suc i"] obtain points s2
    where "embed_all now (Suc i) s1 items = (Inr points, s2)" "length points = length items"
    by blast
  then show ?case by (simp add: it g)
qed

lemma chunks_nonempty_index:
  assumes "j < length (chunks n xs)"
  shows "j * n < length xs"
proof -
  have "chunks n xs ! j \<in> set (chunks n xs)" using assms by simp
  then have "chunks n xs ! j \<noteq> []" using length_chunk_le by blast
  then have "take n (drop (j * n) xs) \<noteq> []" using chunks_nth [OF assms] by simp
  then show ?thesis by (auto simp: take_eq_Nil)
qed

lemma chunks_full:
  assumes "Suc j < length (chunks n xs)"
  shows "length (chunks n xs ! j) = n"
proof -
  have "Suc j * n < length xs" using assms by (rule chunks_nonempty_index)
  then have "n \<le> length xs - j * n" by simp
  moreover have "j < length (chunks n xs)" using assms by simp
  ultimately show ?thesis by (simp add: chunks_nth)
qed

lemma chunks_before_full:
  assumes "chunks n xs = pre @ bad # post"
  shows "list_all (\<lambda>c. length c = n) pre"
proof -
  have "length (pre ! j) = n" if "j < length pre" for j
  proof -
    have "Suc j < length (chunks n xs)" using that assms by simp
    then have "length (chunks n xs ! j) = n" by (rule chunks_full)
    then show ?thesis using that assms by (simp add: nth_append)
  qed
  then show ?thesis by (simp add: list_all_length)
qed

lemma embed_all_append:
  "embed_all now i s (xs @ ys) =
     (case embed_all now i s xs of
        (Inl e, s') \<Rightarrow> (Inl e, s')
      | (Inr ps, s') \<Rightarrow>
          (case embed_all now (i + length xs) s' ys of
             (Inl e, s'') \<Rightarrow> (Inl e, s'')
           | (Inr qs, s'') \<Rightarrow> (Inr (ps @ qs), s'')))"
proof (induction xs arbitrary: i s)
  case Nil
  then show ?case by (simp split: prod.split sum.split)
next
  case (Cons x xs)
  obtain code metadata where x: "x = (code, metadata)" by (cases x)
  show ?case
    by (simp add: x Cons.IH split: prod.split sum.split)
qed

lemma embed_all_replicate_hit:
  assumes "map_of (embeddingCache s) code = Some v"
  shows "embed_all (\<lambda>_. t) i s (replicate n (code, metadata))
    = (Inr (replicate n \<lparr> pt_id = md_id metadata, pt_vector = v, pt_content = code,
          pt_metadata = metadata, pt_created = t, pt_updated = t \<rparr>), s)"
proof (induction n arbitrary: i)
  case 0
  then show ?case by simp
next
  case (Suc n)
  have "generateEmbedding s code = (Inr v, s)"
    using assms by (simp add: generateEmbedding_def)
  then show ?case by (simp add: Suc.IH)
qed

lemma fold_map_set_same:
  "fold (\<lambda>p m. map_set m (pt_id p) p) (replicate n x) [(pt_id x, x)] = [(pt_id x, x)]"
  by (induction n) (simp_all del: fold_replicate)

lemma reference_upsert_replicate:
  assumes "length (pt_vector x) = srv_size srv" and "srv_points srv = []"
  shows "reference_upsert srv (replicate (Suc n) x) = (None, srv\<lparr>srv_points := [(pt_id x, x)]\<rparr>)"
  using assms
  by (simp add: reference_upsert_def list_all_iff fold_map_set_same del: fold_replicate)

lemma chunks_butlast_full: "list_all (\<lambda>c. length c = n) (butlast (chunks n xs))"
proof -
  have "length (butlast (chunks n xs) ! j) = n" if "j < length (butlast (chunks n xs))" for j
  proof -
    from that have "Suc j < length (chunks n xs)" by simp
    then have "length (chunks n xs ! j) = n" by (rule chunks_full)
    then show ?thesis using that by (simp add: nth_butlast)
  qed
  then show ?thesis by (simp add: list_all_length)
qed

lemma chunks_sizes: "0 < n \<Longrightarrow> list_all (\<lambda>c. 0 < length c \<and> length c \<le> n) (chunks n xs)"
  using length_chunk_le [of _ n xs] by (auto simp: list_all_iff)

lemma example_points:
  assumes "generateEmbedding ready code = (Inr v, ready)"
  shows "embed_all (\<lambda>_. 0) 0 ready
      (zip (replicate 100 ''ok'' @ [code]) (replicate 100 (meta ''p'') @ [meta k]))
    = (Inr (replicate 100 (point ''p'' ''ok'' [1, 2]) @ [point k code v]), ready)"
proof -
  have z: "zip (replicate 100 ''ok'' @ [code]) (replicate 100 (meta ''p'') @ [meta k])
      = replicate 100 (''ok'', meta ''p'') @ [(code, meta k)]"
    by (simp add: zip_replicate)
  have ok: "map_of (embeddingCache ready) ''ok'' = Some [1, 2]"
    by (simp add: ready_def)
  show ?thesis
    unfolding z embed_all_append embed_all_replicate_hit [OF ok]
    by (simp add: assms point_def meta_def)
qed

lemma example_chunks:
  "chunks batchSize (replicate 100 p @ [q]) = [replicate 100 p] @ [q] # []"
proof -
  have "chunks batchSize [q] = [[q]]"
    by (subst chunks.simps) (simp add: batchSize_def chunks.simps)
  then show ?thesis
    by (subst chunks.simps) (simp add: batchSize_def)
qed

section \<open>Claims on storing and searching\<close>

text \<open>
  C7. On an initialized instance with arrays of equal length, the points are cut into
  chunks that concatenate to the point list, each holding 100 points but the last, which
  holds from 1 to 100. When the backend accepts every chunk, every chunk is sent, in
  order, the server is in the state the chunks led it to, and the ids are returned. When
  the backend accepts the chunks \<open>pre\<close> and refuses the next chunk \<open>bad\<close> with the error
  \<open>e\<close>, the call rejects with \<open>e\<close>, the requests sent are exactly \<open>pre\<close> and \<open>bad\<close>
  (the chunks \<open>post\<close> are never sent), and the server is left in the state the refused
  request found after the accepted chunks, with nothing undone.
\<close>

theorem storeMultipleEmbeddings_chunked_upsert:
  assumes "initialized s"
    and "length codeChunks = length metadataList"
    and "embed_all now 0 s (zip codeChunks metadataList) = (Inr points, s')"
  shows "concat (chunks batchSize points) = points
    \<and> list_all (\<lambda>c. length c = 100) (butlast (chunks batchSize points))
    \<and> list_all (\<lambda>c. 0 < length c \<and> length c \<le> 100) (chunks batchSize points)
    \<and> (run_ok backend (server net) (chunks batchSize points) = Some srv_n
        \<longrightarrow> storeMultipleEmbeddings backend now s net codeChunks metadataList
              = (Inr (map pt_id points), s',
                 \<lparr> server = srv_n, sent = sent net @ chunks batchSize points \<rparr>))
    \<and> (chunks batchSize points = pre @ bad # post
          \<and> run_ok backend (server net) pre = Some srv_k
          \<and> backend srv_k bad = (Some e, srv_bad)
        \<longrightarrow> storeMultipleEmbeddings backend now s net codeChunks metadataList
              = (Inl e, s', \<lparr> server = srv_bad, sent = sent net @ pre @ [bad] \<rparr>))"
proof (intro conjI impI)
  show "concat (chunks batchSize points) = points"
    by (rule concat_chunks) (simp add: batchSize_def)
  show "list_all (\<lambda>c. length c = 100) (butlast (chunks batchSize points))"
    using chunks_butlast_full [of batchSize points] by (simp add: batchSize_def)
  show "list_all (\<lambda>c. 0 < length c \<and> length c \<le> 100) (chunks batchSize points)"
    using chunks_sizes [of batchSize points] by (simp add: batchSize_def)
next
  assume "run_ok backend (server net) (chunks batchSize points) = Some srv_n"
  then have "send_batches backend net points 0
      = (None, \<lparr> server = srv_n, sent = sent net @ chunks batchSize points \<rparr>)"
    by (simp add: send_batches_chunks upsert_chunks_all)
  then show "storeMultipleEmbeddings backend now s net codeChunks metadataList
      = (Inr (map pt_id points), s',
         \<lparr> server = srv_n, sent = sent net @ chunks batchSize points \<rparr>)"
    using assms by (simp add: storeMultipleEmbeddings_def)
next
  assume "chunks batchSize points = pre @ bad # post
      \<and> run_ok backend (server net) pre = Some srv_k
      \<and> backend srv_k bad = (Some e, srv_bad)"
  then have "send_batches backend net points 0
      = (Some e, \<lparr> server = srv_bad, sent = sent net @ pre @ [bad] \<rparr>)"
    by (simp add: send_batches_chunks upsert_chunks_stops)
  then show "storeMultipleEmbeddings backend now s net codeChunks metadataList
      = (Inl e, s', \<lparr> server = srv_bad, sent = sent net @ pre @ [bad] \<rparr>)"
    using assms by (simp add: storeMultipleEmbeddings_def)
qed

text \<open>
  C7, witness: 101 points in two chunks. When all vectors have the collection's size,
  both chunks are sent and stored. When the last point has a vector of the wrong size, the
  first chunk of 100 is accepted and stays stored, and the second is refused.
\<close>

theorem storeMultipleEmbeddings_chunked_upsert_witness:
  "storeMultipleEmbeddings reference_upsert (\<lambda>_. 0) ready empty_server
       (replicate 100 ''ok'' @ [''ok'']) (replicate 100 (meta ''p'') @ [meta ''q''])
     = (Inr (replicate 100 ''p'' @ [''q'']), ready,
        \<lparr> server = \<lparr> srv_size = 2,
                     srv_points = [(''p'', point ''p'' ''ok'' [1, 2]),
                                   (''q'', point ''q'' ''ok'' [1, 2])] \<rparr>,
          sent = [replicate 100 (point ''p'' ''ok'' [1, 2]), [point ''q'' ''ok'' [1, 2]]] \<rparr>)
   \<and> storeMultipleEmbeddings reference_upsert (\<lambda>_. 0) ready empty_server
       (replicate 100 ''ok'' @ [''bad'']) (replicate 100 (meta ''p'') @ [meta ''q''])
     = (Inl (RequestFailed 400), ready,
        \<lparr> server = \<lparr> srv_size = 2, srv_points = [(''p'', point ''p'' ''ok'' [1, 2])] \<rparr>,
          sent = [replicate 100 (point ''p'' ''ok'' [1, 2]), [point ''q'' ''bad'' [1]]] \<rparr>)"
proof -
  let ?ok = "point ''p'' ''ok'' [1, 2]"
  let ?last = "point ''q'' ''ok'' [1, 2]"
  let ?bad = "point ''q'' ''bad'' [1]"
  let ?srv = "\<lparr> srv_size = 2, srv_points = [(''p'', ?ok)] \<rparr>"
  let ?srv2 = "\<lparr> srv_size = 2, srv_points = [(''p'', ?ok), (''q'', ?last)] \<rparr>"
  have "reference_upsert (server empty_server) (replicate (Suc 99) ?ok)
      = (None, (server empty_server)\<lparr>srv_points := [(pt_id ?ok, ?ok)]\<rparr>)"
    by (rule reference_upsert_replicate) (simp_all add: empty_server_def point_def)
  then have first: "reference_upsert (server empty_server) (replicate 100 ?ok) = (None, ?srv)"
    by (simp add: empty_server_def point_def)
  have run: "run_ok reference_upsert (server empty_server) [replicate 100 ?ok] = Some ?srv"
    by (simp add: first)
  have second: "reference_upsert ?srv [?last] = (None, ?srv2)"
    by (simp add: reference_upsert_def point_def)
  have run2: "run_ok reference_upsert (server empty_server)
      (chunks batchSize (replicate 100 ?ok @ [?last])) = Some ?srv2"
    by (simp add: example_chunks first second)
  have fail: "reference_upsert ?srv [?bad] = (Some (RequestFailed 400), ?srv)"
    by (simp add: reference_upsert_def point_def)
  have i: "initialized ready" by (simp add: ready_def)
  have l: "length (replicate 100 ''ok'' @ [c]) = length (replicate 100 (meta ''p'') @ [meta ''q''])"
    for c :: string
    by simp
  have s: "sent empty_server = []" by (simp add: empty_server_def)
  have gok: "generateEmbedding ready ''ok'' = (Inr [1, 2], ready)"
    by (simp add: generateEmbedding_def ready_def)
  have gbad: "generateEmbedding ready ''bad'' = (Inr [1], ready)"
    by (simp add: generateEmbedding_def ready_def)
  have ids: "map pt_id (replicate 100 ?ok @ [?last]) = replicate 100 ''p'' @ [''q'']"
    by (simp add: point_def)
  note good = storeMultipleEmbeddings_chunked_upsert
    [where backend = reference_upsert and net = empty_server and srv_n = ?srv2,
      OF i l example_points [OF gok]]
  note refused = storeMultipleEmbeddings_chunked_upsert
    [where backend = reference_upsert and net = empty_server
      and pre = "[replicate 100 ?ok]" and bad = "[?bad]" and post = "[]"
      and srv_k = ?srv and e = "RequestFailed 400" and srv_bad = ?srv,
      OF i l example_points [OF gbad]]
  have a: "storeMultipleEmbeddings reference_upsert (\<lambda>_. 0) ready empty_server
       (replicate 100 ''ok'' @ [''ok'']) (replicate 100 (meta ''p'') @ [meta ''q''])
     = (Inr (map pt_id (replicate 100 ?ok @ [?last])), ready,
        \<lparr> server = ?srv2, sent = sent empty_server @ chunks batchSize (replicate 100 ?ok @ [?last]) \<rparr>)"
    using good run2 by blast
  have b: "storeMultipleEmbeddings reference_upsert (\<lambda>_. 0) ready empty_server
       (replicate 100 ''ok'' @ [''bad'']) (replicate 100 (meta ''p'') @ [meta ''q''])
     = (Inl (RequestFailed 400), ready,
        \<lparr> server = ?srv, sent = sent empty_server @ [replicate 100 ?ok] @ [[?bad]] \<rparr>)"
    using refused example_chunks [of ?ok ?bad] run fail by blast
  show ?thesis
    using a b unfolding ids by (simp add: s example_chunks)
qed

text \<open>
  C8, as stated: arrays of different lengths are rejected with the validation error.
  On an instance that is not initialized the call rejects with the not-initialized error
  instead, since that guard comes first.
\<close>

theorem storeMultipleEmbeddings_uninitialized_mismatch:
  "storeMultipleEmbeddings reference_upsert (\<lambda>_. 0) (constructor default_config) empty_server
       [''a''] []
     = (Inl NotInitialized, constructor default_config, empty_server)"
  by (simp add: storeMultipleEmbeddings_def constructor_def)

text \<open>
  C8, amended. For arrays of different lengths the call rejects, with the validation
  error on an initialized instance and with the not-initialized error otherwise; the
  instance (its cache and the record of embedding calls) and the network (the server and
  the requests sent) are as before the call: nothing was generated and nothing was sent.
\<close>

theorem storeMultipleEmbeddings_length_mismatch:
  assumes "length codeChunks \<noteq> length metadataList"
  shows "storeMultipleEmbeddings backend now s net codeChunks metadataList
    = (Inl (if initialized s then LengthMismatch else NotInitialized), s, net)"
  using assms by (simp add: storeMultipleEmbeddings_def)

text \<open>C8, witness: one code chunk and no metadata on an initialized instance.\<close>

theorem storeMultipleEmbeddings_length_mismatch_witness:
  "storeMultipleEmbeddings reference_upsert (\<lambda>_. 0) ready empty_server [''a''] []
     = (Inl LengthMismatch, ready, empty_server)"
proof -
  have "length [''a''] \<noteq> length ([] :: CodeMetadata list)" by simp
  from storeMultipleEmbeddings_length_mismatch [OF this, of reference_upsert "\<lambda>_. 0" ready empty_server]
  show ?thesis by (simp add: ready_def)
qed




text \<open>
  C10. With an explicit limit 0 and an explicit threshold 0, the one request that
  \<^verbatim>\<open>searchByEmbedding\<close> sends on an initialized instance carries the limit 10 and the
  score threshold 0.7, and the call returns the endpoint's answer to that request. Each
  option alone behaves the same: the request sent with the option at 0 carries that
  option's default, and the call is the call with the option absent. So a threshold of 0
  cannot ask for unfiltered results.
\<close>

theorem searchRequest_zero_is_default:
  "snd (searchByEmbedding s search_backend embedding \<lparr> opt_limit = Some 0, opt_threshold = Some 0 \<rparr>)
     = (if initialized s
        then [\<lparr> req_vector = embedding, req_limit = 10, req_score_threshold = 7 / 10,
                req_with_payload = True \<rparr>]
        else [])
   \<and> fst (searchByEmbedding s search_backend embedding \<lparr> opt_limit = Some 0, opt_threshold = Some 0 \<rparr>)
     = (if initialized s
        then map_sum id (map to_search_result)
               (search_backend \<lparr> req_vector = embedding, req_limit = 10,
                                 req_score_threshold = 7 / 10, req_with_payload = True \<rparr>)
        else Inl NotInitialized)
   \<and> map req_limit (snd (searchByEmbedding s search_backend embedding (options\<lparr>opt_limit := Some 0\<rparr>)))
     = (if initialized s then [10] else [])
   \<and> map req_score_threshold
        (snd (searchByEmbedding s search_backend embedding (options\<lparr>opt_threshold := Some 0\<rparr>)))
     = (if initialized s then [7 / 10] else [])
   \<and> searchByEmbedding s search_backend embedding (options\<lparr>opt_limit := Some 0\<rparr>)
       = searchByEmbedding s search_backend embedding (options\<lparr>opt_limit := None\<rparr>)
   \<and> searchByEmbedding s search_backend embedding (options\<lparr>opt_threshold := Some 0\<rparr>)
       = searchByEmbedding s search_backend embedding (options\<lparr>opt_threshold := None\<rparr>)"
proof -
  let ?zero = "\<lparr> opt_limit = Some 0, opt_threshold = Some 0 \<rparr>"
  let ?req = "\<lparr> req_vector = embedding, req_limit = 10, req_score_threshold = 7 / 10,
      req_with_payload = True \<rparr>"
  have r: "searchRequest embedding ?zero = ?req"
    by (simp add: searchRequest_def js_or_def)
  have "snd (searchByEmbedding s search_backend embedding ?zero)
      = (if initialized s then [?req] else [])"
    by (simp add: searchByEmbedding_def r split: sum.split)
  moreover have "fst (searchByEmbedding s search_backend embedding ?zero)
      = (if initialized s then map_sum id (map to_search_result) (search_backend ?req)
         else Inl NotInitialized)"
    by (simp add: searchByEmbedding_def r split: sum.split)
  moreover have "map req_limit
        (snd (searchByEmbedding s search_backend embedding (options\<lparr>opt_limit := Some 0\<rparr>)))
      = (if initialized s then [10] else [])"
    by (simp add: searchByEmbedding_def searchRequest_def js_or_def split: sum.split)
  moreover have "map req_score_threshold
        (snd (searchByEmbedding s search_backend embedding (options\<lparr>opt_threshold := Some 0\<rparr>)))
      = (if initialized s then [7 / 10] else [])"
    by (simp add: searchByEmbedding_def searchRequest_def js_or_def split: sum.split)
  moreover have "searchByEmbedding s search_backend embedding (options\<lparr>opt_limit := Some 0\<rparr>)
       = searchByEmbedding s search_backend embedding (options\<lparr>opt_limit := None\<rparr>)"
  proof -
    have "searchRequest embedding (options\<lparr>opt_limit := Some 0\<rparr>)
        = searchRequest embedding (options\<lparr>opt_limit := None\<rparr>)"
      by (simp add: searchRequest_def js_or_def)
    then show ?thesis by (simp only: searchByEmbedding_def)
  qed
  moreover have "searchByEmbedding s search_backend embedding (options\<lparr>opt_threshold := Some 0\<rparr>)
       = searchByEmbedding s search_backend embedding (options\<lparr>opt_threshold := None\<rparr>)"
  proof -
    have "searchRequest embedding (options\<lparr>opt_threshold := Some 0\<rparr>)
        = searchRequest embedding (options\<lparr>opt_threshold := None\<rparr>)"
      by (simp add: searchRequest_def js_or_def)
    then show ?thesis by (simp only: searchByEmbedding_def)
  qed
  ultimately show ?thesis by blast
qed

section \<open>Properties of the relational store\<close>

lemma pg_text_simps [simp]:
  "pg_text [] = True"
  "pg_text (c # cs) = (c \<noteq> CHR 0x00 \<and> pg_text cs)"
  by (auto simp: pg_text_def)




subsection \<open>Upserts\<close>

lemma replace_by_key_unique:
  assumes "distinct (map key rows)" and "list_ex (\<lambda>r. key r = k) rows"
    and "\<And>r. key (f r) = key r"
  shows "\<exists>r0. filter (\<lambda>r. key r = k) (map (\<lambda>r. if key r = k then f r else r) rows) = [f r0]"
  using assms(1,2)
proof (induction rows)
  case Nil
  then show ?case by simp
next
  case (Cons r rows)
  show ?case
  proof (cases "key r = k")
    case True
    from Cons.prems(1) have "key r \<notin> key ` set rows" by simp
    with True have "\<forall>x\<in>set rows. key x \<noteq> k" by blast
    then have "filter (\<lambda>r. key r = k) (map (\<lambda>r. if key r = k then f r else r) rows) = []"
      by (auto simp: filter_empty_conv)
    with True show ?thesis by (auto simp: assms(3))
  next
    case False
    with Cons.prems have "distinct (map key rows)" "list_ex (\<lambda>r. key r = k) rows" by auto
    with Cons.IH obtain r0 where
      "filter (\<lambda>r. key r = k) (map (\<lambda>r. if key r = k then f r else r) rows) = [f r0]"
      by blast
    with False show ?thesis by auto
  qed
qed

lemma replace_by_key_keys:
  assumes "\<And>r. key (f r) = key r"
  shows "map key (map (\<lambda>r. if key r = k then f r else r) rows) = map key rows"
  by (induction rows) (auto simp: assms)

lemma append_new_key_unique:
  assumes "\<not> list_ex (\<lambda>r. key r = k) rows" and "key x = k"
  shows "filter (\<lambda>r. key r = k) (rows @ [x]) = [x]"
  using assms by (auto simp: list_ex_iff filter_empty_conv)

lemma insert_semantic_concepts_upsert:
  assumes "distinct (map sc_id rows)"
    and "pg_text (sc_id c)" "pg_text (sc_conceptName c)" "pg_text (sc_conceptType c)"
      "pg_text (sc_filePath c)"
  shows "\<exists>rows' row. insert_semantic_concepts now c rows = Inr rows'
    \<and> distinct (map sc_id rows')
    \<and> filter (\<lambda>r. sc_id r = sc_id c) rows' = [row]
    \<and> sc_conceptName row = sc_conceptName c \<and> sc_conceptType row = sc_conceptType c
    \<and> sc_confidenceScore row = sc_confidenceScore c \<and> sc_relationships row = sc_relationships c
    \<and> sc_evolutionHistory row = sc_evolutionHistory c \<and> sc_filePath row = sc_filePath c
    \<and> sc_lineRange row = sc_lineRange c \<and> sc_updated_at row = now"
proof (cases "list_ex (\<lambda>r. sc_id r = sc_id c) rows")
  case True
  let ?f = "\<lambda>r::semantic_concepts_row. r\<lparr> sc_conceptName := sc_conceptName c,
      sc_conceptType := sc_conceptType c, sc_confidenceScore := sc_confidenceScore c,
      sc_relationships := sc_relationships c, sc_evolutionHistory := sc_evolutionHistory c,
      sc_filePath := sc_filePath c, sc_lineRange := sc_lineRange c, sc_updated_at := now \<rparr>"
  let ?rows' = "map (\<lambda>r. if sc_id r = sc_id c then ?f r else r) rows"
  have ins: "insert_semantic_concepts now c rows = Inr ?rows'"
    using True assms(2-5) by (simp add: insert_semantic_concepts_def)
  have keys: "map sc_id ?rows' = map sc_id rows"
    by (rule replace_by_key_keys) simp
  obtain r0 where one: "filter (\<lambda>r. sc_id r = sc_id c) ?rows' = [?f r0]"
    using replace_by_key_unique [of sc_id rows "sc_id c" ?f] assms(1) True by auto
  have "distinct (map sc_id ?rows')"
    using assms(1) by (simp only: keys)
  then show ?thesis
    using ins one by (intro exI [of _ ?rows'] exI [of _ "?f r0"]) simp
next
  case False
  let ?row = "\<lparr> sc_id = sc_id c, sc_conceptName = sc_conceptName c,
      sc_conceptType = sc_conceptType c, sc_confidenceScore = sc_confidenceScore c,
      sc_relationships = sc_relationships c, sc_evolutionHistory = sc_evolutionHistory c,
      sc_filePath = sc_filePath c, sc_lineRange = sc_lineRange c,
      sc_created_at = now, sc_updated_at = now \<rparr>"
  have ins: "insert_semantic_concepts now c rows = Inr (rows @ [?row])"
    using False assms(2-5) by (simp add: insert_semantic_concepts_def)
  have one: "filter (\<lambda>r. sc_id r = sc_id c) (rows @ [?row]) = [?row]"
    by (rule append_new_key_unique [OF False]) simp
  have "distinct (map sc_id (rows @ [?row]))"
    using assms(1) False by (auto simp: list_ex_iff)
  then show ?thesis
    using ins one by (intro exI [of _ "rows @ [?row]"] exI [of _ ?row]) simp
qed

lemma insert_developer_patterns_upsert:
  assumes "distinct (map dp_patternId rows)"
    and "pg_text (dp_patternId p)" "pg_text (dp_patternType p)"
  shows "\<exists>rows' row. insert_developer_patterns now p rows = Inr rows'
    \<and> distinct (map dp_patternId rows')
    \<and> filter (\<lambda>r. dp_patternId r = dp_patternId p) rows' = [row]
    \<and> dp_patternType row = dp_patternType p \<and> dp_patternContent row = dp_patternContent p
    \<and> dp_frequency row = dp_frequency p \<and> dp_contexts row = dp_contexts p
    \<and> dp_examples row = dp_examples p \<and> dp_confidence row = dp_confidence p
    \<and> dp_last_seen row = now"
proof (cases "list_ex (\<lambda>r. dp_patternId r = dp_patternId p) rows")
  case True
  let ?f = "\<lambda>r::developer_patterns_row. r\<lparr> dp_patternType := dp_patternType p,
      dp_patternContent := dp_patternContent p, dp_frequency := dp_frequency p,
      dp_contexts := dp_contexts p, dp_examples := dp_examples p,
      dp_confidence := dp_confidence p, dp_last_seen := now \<rparr>"
  let ?rows' = "map (\<lambda>r. if dp_patternId r = dp_patternId p then ?f r else r) rows"
  have ins: "insert_developer_patterns now p rows = Inr ?rows'"
    using True assms(2,3) by (simp add: insert_developer_patterns_def)
  have keys: "map dp_patternId ?rows' = map dp_patternId rows"
    by (rule replace_by_key_keys) simp
  obtain r0 where one: "filter (\<lambda>r. dp_patternId r = dp_patternId p) ?rows' = [?f r0]"
    using replace_by_key_unique [of dp_patternId rows "dp_patternId p" ?f] assms(1) True by auto
  have "distinct (map dp_patternId ?rows')"
    using assms(1) by (simp only: keys)
  then show ?thesis
    using ins one by (intro exI [of _ ?rows'] exI [of _ "?f r0"]) simp
next
  case False
  let ?row = "\<lparr> dp_patternId = dp_patternId p, dp_patternType = dp_patternType p,
      dp_patternContent = dp_patternContent p, dp_frequency = dp_frequency p,
      dp_contexts = dp_contexts p, dp_examples = dp_examples p,
      dp_confidence = dp_confidence p, dp_created_at = now, dp_last_seen = now \<rparr>"
  have ins: "insert_developer_patterns now p rows = Inr (rows @ [?row])"
    using False assms(2,3) by (simp add: insert_developer_patterns_def)
  have one: "filter (\<lambda>r. dp_patternId r = dp_patternId p) (rows @ [?row]) = [?row]"
    by (rule append_new_key_unique [OF False]) simp
  have "distinct (map dp_patternId (rows @ [?row]))"
    using assms(1) False by (auto simp: list_ex_iff)
  then show ?thesis
    using ins one by (intro exI [of _ "rows @ [?row]"] exI [of _ ?row]) simp
qed

lemma insert_file_intelligence_upsert:
  assumes "distinct (map fi_filePath rows)"
    and "pg_text (fi_filePath f)" "pg_text (fi_fileHash f)"
  shows "\<exists>rows' row. insert_file_intelligence now f rows = Inr rows'
    \<and> distinct (map fi_filePath rows')
    \<and> filter (\<lambda>r. fi_filePath r = fi_filePath f) rows' = [row]
    \<and> fi_fileHash row = fi_fileHash f \<and> fi_semanticConcepts row = fi_semanticConcepts f
    \<and> fi_patternsUsed row = fi_patternsUsed f
    \<and> fi_complexityMetrics row = fi_complexityMetrics f
    \<and> fi_dependencies row = fi_dependencies f \<and> fi_lastAnalyzed row = fi_lastAnalyzed f"
proof (cases "list_ex (\<lambda>r. fi_filePath r = fi_filePath f) rows")
  case True
  let ?f = "\<lambda>r::file_intelligence_row. r\<lparr> fi_fileHash := fi_fileHash f,
      fi_semanticConcepts := fi_semanticConcepts f, fi_patternsUsed := fi_patternsUsed f,
      fi_complexityMetrics := fi_complexityMetrics f, fi_dependencies := fi_dependencies f,
      fi_lastAnalyzed := fi_lastAnalyzed f \<rparr>"
  let ?rows' = "map (\<lambda>r. if fi_filePath r = fi_filePath f then ?f r else r) rows"
  have ins: "insert_file_intelligence now f rows = Inr ?rows'"
    using True assms(2,3) by (simp add: insert_file_intelligence_def)
  have keys: "map fi_filePath ?rows' = map fi_filePath rows"
    by (rule replace_by_key_keys) simp
  obtain r0 where one: "filter (\<lambda>r. fi_filePath r = fi_filePath f) ?rows' = [?f r0]"
    using replace_by_key_unique [of fi_filePath rows "fi_filePath f" ?f] assms(1) True by auto
  have "distinct (map fi_filePath ?rows')"
    using assms(1) by (simp only: keys)
  then show ?thesis
    using ins one by (intro exI [of _ ?rows'] exI [of _ "?f r0"]) simp
next
  case False
  let ?row = "\<lparr> fi_filePath = fi_filePath f, fi_fileHash = fi_fileHash f,
      fi_semanticConcepts = fi_semanticConcepts f, fi_patternsUsed = fi_patternsUsed f,
      fi_complexityMetrics = fi_complexityMetrics f, fi_dependencies = fi_dependencies f,
      fi_lastAnalyzed = fi_lastAnalyzed f, fi_created_at = now \<rparr>"
  have ins: "insert_file_intelligence now f rows = Inr (rows @ [?row])"
    using False assms(2,3) by (simp add: insert_file_intelligence_def)
  have one: "filter (\<lambda>r. fi_filePath r = fi_filePath f) (rows @ [?row]) = [?row]"
    by (rule append_new_key_unique [OF False]) simp
  have "distinct (map fi_filePath (rows @ [?row]))"
    using assms(1) False by (auto simp: list_ex_iff)
  then show ?thesis
    using ins one by (intro exI [of _ "rows @ [?row]"] exI [of _ ?row]) simp
qed

subsection \<open>Batches and ordering\<close>

text \<open>
  A batch is the plain sequence of its inserts: the transaction commands on the client
  change nothing, whatever the items are.
\<close>

lemma pool_query_transaction:
  "pool_query now stmt (db\<lparr>client_transaction := x\<rparr>)
    = (case pool_query now stmt db of (r, db') \<Rightarrow> (r, db'\<lparr>client_transaction := x\<rparr>))"
  by (simp add: pool_query_def split: sum.split)

lemma insert_each_transaction:
  assumes "\<And>now x db tx. insert_one now x (db\<lparr>client_transaction := tx\<rparr>)
      = (case insert_one now x db of (r, db') \<Rightarrow> (r, db'\<lparr>client_transaction := tx\<rparr>))"
  shows "insert_each insert_one now i xs (db\<lparr>client_transaction := tx\<rparr>)
    = (case insert_each insert_one now i xs db of (r, db') \<Rightarrow> (r, db'\<lparr>client_transaction := tx\<rparr>))"
proof (induction xs arbitrary: i db)
  case Nil
  then show ?case by simp
next
  case (Cons x xs)
  show ?case
    by (simp add: assms Cons.IH split: prod.split option.split)
qed

lemma insert_each_keeps_transaction:
  assumes "\<And>now x db r db'. insert_one now x db = (r, db') \<Longrightarrow> client_transaction db' = client_transaction db"
  shows "insert_each insert_one now i xs db = (r, db') \<Longrightarrow> client_transaction db' = client_transaction db"
proof (induction xs arbitrary: i db)
  case Nil
  then show ?case by simp
next
  case (Cons x xs)
  obtain r1 db1 where s: "insert_one (now i) x db = (r1, db1)"
    by (cases "insert_one (now i) x db")
  then have k: "client_transaction db1 = client_transaction db" by (rule assms)
  show ?case
  proof (cases r1)
    case None
    with Cons.prems s have "insert_each insert_one now (Suc i) xs db1 = (r, db')" by simp
    then show ?thesis using Cons.IH k by metis
  next
    case (Some e)
    with Cons.prems s k show ?thesis by simp
  qed
qed

lemma pool_query_keeps_transaction:
  "pool_query now stmt db = (r, db') \<Longrightarrow> client_transaction db' = client_transaction db"
  by (auto simp: pool_query_def split: sum.splits)

lemma batch_is_sequence:
  assumes "client_transaction db = None"
    and tx: "\<And>now x db tx. insert_one now x (db\<lparr>client_transaction := tx\<rparr>)
      = (case insert_one now x db of (r, db') \<Rightarrow> (r, db'\<lparr>client_transaction := tx\<rparr>))"
    and keep: "\<And>now x db r db'. insert_one now x db = (r, db') \<Longrightarrow> client_transaction db' = client_transaction db"
  shows "(case insert_each insert_one now 0 xs (client_query BEGIN db) of
            (None, db') \<Rightarrow> (None, client_query COMMIT db')
          | (Some e, db') \<Rightarrow> (Some e, client_query ROLLBACK db'))
    = insert_each insert_one now 0 xs db"
proof -
  obtain r db' where s: "insert_each insert_one now 0 xs db = (r, db')"
    by (cases "insert_each insert_one now 0 xs db")
  have "client_transaction db' = None"
    using insert_each_keeps_transaction [of insert_one, OF keep s] assms(1) by simp
  then have same: "db'\<lparr>client_transaction := None\<rparr> = db'" by simp
  have "insert_each insert_one now 0 xs (client_query BEGIN db)
      = (r, db'\<lparr>client_transaction := Some (\<lambda>t. t)\<rparr>)"
    by (simp add: insert_each_transaction [of insert_one, OF tx] s)
  then show ?thesis
    using same by (cases r) (simp_all add: s)
qed

lemma insertSemanticConceptsBatch_no_transaction:
  assumes "client_transaction db = None"
  shows "insertSemanticConceptsBatch now concepts db
    = insert_each insertSemanticConcept now 0 concepts db"
proof (cases "concepts = []")
  case True
  then show ?thesis by (simp add: insertSemanticConceptsBatch_def)
next
  case False
  then show ?thesis
    unfolding insertSemanticConceptsBatch_def
    using batch_is_sequence [of db insertSemanticConcept now concepts, OF assms]
    by (simp add: insertSemanticConcept_def pool_query_transaction pool_query_keeps_transaction)
qed

lemma insertDeveloperPatternsBatch_no_transaction:
  assumes "client_transaction db = None"
  shows "insertDeveloperPatternsBatch now patterns db
    = insert_each insertDeveloperPattern now 0 patterns db"
proof (cases "patterns = []")
  case True
  then show ?thesis by (simp add: insertDeveloperPatternsBatch_def)
next
  case False
  then show ?thesis
    unfolding insertDeveloperPatternsBatch_def
    using batch_is_sequence [of db insertDeveloperPattern now patterns, OF assms]
    by (simp add: insertDeveloperPattern_def pool_query_transaction pool_query_keeps_transaction)
qed










text \<open>
  A row that holds an object in a JSON column makes the list operation reject, whatever
  the parser of texts: so does every record written with an object, as the interface
  types ask for.
\<close>

lemma get_rejects_objects:
  "getSemanticConcepts parse_text None (snd (insertSemanticConcept 1 (concept ''c1'') empty_db))
     = Inl SyntaxError"
  "getDeveloperPatterns parse_text None (snd (insertDeveloperPattern 1 (pattern ''p1'' 1) empty_db))
     = Inl SyntaxError"
  "getAIInsights parse_text None (snd (insertAIInsight 1 (insight ''i1'' (1 / 2)) empty_db))
     = Inl SyntaxError"
  by (simp_all add: getSemanticConcepts_def getDeveloperPatterns_def getAIInsights_def
      insertSemanticConcept_def insertDeveloperPattern_def insertAIInsight_def pool_query_def
      insert_semantic_concepts_def insert_developer_patterns_def insert_ai_insights_def
      concept_def pattern_def insight_def empty_db_def where_eq_def order_by_desc_def
      row_to_SemanticConcept_def row_to_DeveloperPattern_def row_to_AIInsight_def
      parse_column_def)

section \<open>Claims on the relational store\<close>

text \<open>
  C1. The claim: for each of the four record kinds, calling \<^verbatim>\<open>insert*\<close> twice with
  the same key succeeds and leaves one row for the key, holding the values of the second
  call. The code, for \<^verbatim>\<open>AIInsight\<close>: the first insert of the insight \<open>i1\<close> succeeds,
  the second insert with the same \<open>insightId\<close> and another confidence score fails with
  a unique violation and leaves the database as it was, the row keeping the score of the
  first call. The other three kinds do upsert (the three lemmas above).
\<close>

theorem insertAIInsight_same_key_fails:
  "fst (insertAIInsight 1 (insight ''i1'' (5 / 10)) empty_db) = None
   \<and> insertAIInsight 2 (insight ''i1'' (9 / 10)) (snd (insertAIInsight 1 (insight ''i1'' (5 / 10)) empty_db))
       = (Some UniqueViolation, snd (insertAIInsight 1 (insight ''i1'' (5 / 10)) empty_db))
   \<and> map ai_confidenceScore
        (ai_insights (committed (snd (insertAIInsight 1 (insight ''i1'' (5 / 10)) empty_db))))
       = [5 / 10]"
  by (simp add: insertAIInsight_def pool_query_def insert_ai_insights_def insight_def empty_db_def)

text \<open>
  C2. The claim: a failing item rolls the whole batch back and leaves the table
  unchanged. The code, for a batch of five whose third item holds a text with the
  character 0, on empty tables: the batch rejects, and the first two items stay in the
  table. The inserts went through the pool, outside the transaction that
  \<^verbatim>\<open>BEGIN\<close> opened on the client, so \<^verbatim>\<open>ROLLBACK\<close> has nothing to undo.
\<close>

theorem batch_failure_keeps_earlier_rows:
  "fst (insertSemanticConceptsBatch (\<lambda>i. i)
          [concept ''c1'', concept ''c2'', concept [CHR 0x00], concept ''c4'', concept ''c5'']
          empty_db) = Some InvalidValue
   \<and> map sc_id (semantic_concepts (committed (snd (insertSemanticConceptsBatch (\<lambda>i. i)
          [concept ''c1'', concept ''c2'', concept [CHR 0x00], concept ''c4'', concept ''c5'']
          empty_db)))) = [''c1'', ''c2'']
   \<and> fst (insertDeveloperPatternsBatch (\<lambda>i. i)
          [pattern ''p1'' 1, pattern ''p2'' 1, pattern [CHR 0x00] 1, pattern ''p4'' 1, pattern ''p5'' 1]
          empty_db) = Some InvalidValue
   \<and> map dp_patternId (developer_patterns (committed (snd (insertDeveloperPatternsBatch (\<lambda>i. i)
          [pattern ''p1'' 1, pattern ''p2'' 1, pattern [CHR 0x00] 1, pattern ''p4'' 1, pattern ''p5'' 1]
          empty_db)))) = [''p1'', ''p2'']"
  by (simp add: insertSemanticConceptsBatch_def insertDeveloperPatternsBatch_def
      insertSemanticConcept_def insertDeveloperPattern_def pool_query_def
      insert_semantic_concepts_def insert_developer_patterns_def concept_def pattern_def
      empty_db_def)




end
